theory Spec2Isabelle
  imports Main "HOL-Library.Word"
begin

section \<open>User-level IPC library (lib/ipc.c)\<close>

text \<open>
  All C objects that occur in \<^verbatim>\<open>lib/ipc.c\<close> are 32 bits wide on the i386 target:
  \<^verbatim>\<open>int\<close>, \<^verbatim>\<open>int32_t\<close>, \<^verbatim>\<open>uint32_t\<close>, \<^verbatim>\<open>envid_t\<close> and every pointer.  They are all
  modelled as \<open>32 word\<close>; a signed comparison of the source (\<^verbatim>\<open>r < 0\<close> on an \<^verbatim>\<open>int\<close>)
  is the signed comparison \<open><s\<close> of words, and \<^verbatim>\<open>-E_IPC_NOT_RECV\<close> is the
  two's-complement negation.
\<close>

type_synonym word32 = "32 word"
type_synonym envid_t = "32 word"
type_synonym addr = "32 word"

abbreviation (input) NULL :: addr where
  "NULL \<equiv> 0"

text \<open>
  The fields of \<^verbatim>\<open>struct Env\<close> that \<^verbatim>\<open>ipc_recv\<close> reads through the global \<^verbatim>\<open>env\<close>.
\<close>

record Env =
  env_ipc_from :: envid_t
  env_ipc_perm :: word32
  env_ipc_value :: word32

text \<open>
  What \<^verbatim>\<open>inc/lib.h\<close> declares and \<^verbatim>\<open>lib/ipc.c\<close> uses, over a state \<open>'w\<close> of everything
  outside the two library functions: the error number \<^verbatim>\<open>E_IPC_NOT_RECV\<close>, the three
  system calls, the global \<^verbatim>\<open>env\<close>, and the store of a 32-bit object through a
  pointer (\<^verbatim>\<open>*p = v\<close>).  A system call takes the state and returns its result with
  the new state.  \<^verbatim>\<open>sys_ipc_recv\<close> blocks the calling environment, so its result is
  optional: \<open>None\<close> when the environment is never resumed.
\<close>

record 'w lib =
  E_IPC_NOT_RECV :: word32
  sys_ipc_recv :: "addr \<Rightarrow> 'w \<Rightarrow> (word32 \<times> 'w) option"
  sys_ipc_try_send :: "envid_t \<Rightarrow> word32 \<Rightarrow> addr \<Rightarrow> word32 \<Rightarrow> 'w \<Rightarrow> word32 \<times> 'w"
  sys_yield :: "'w \<Rightarrow> 'w"
  env :: "'w \<Rightarrow> Env"
  store32 :: "addr \<Rightarrow> word32 \<Rightarrow> 'w \<Rightarrow> 'w"

subsection \<open>\<^verbatim>\<open>ipc_recv\<close>\<close>

definition ipc_recv ::
  "'w lib \<Rightarrow> addr \<Rightarrow> addr \<Rightarrow> addr \<Rightarrow> 'w \<Rightarrow> (word32 \<times> 'w) option" where
  "ipc_recv L from_env_store pg perm_store w =
     (case (if pg = NULL then sys_ipc_recv L 0xffffffff w
            else sys_ipc_recv L pg w) of
        None \<Rightarrow> None
      | Some (r, w1) \<Rightarrow>
          if r <s 0 then
            let w2 = (if from_env_store \<noteq> NULL then store32 L from_env_store 0 w1 else w1);
                w3 = (if perm_store \<noteq> NULL then store32 L perm_store 0 w2 else w2)
            in Some (r, w3)
          else
            let w2 = (if from_env_store \<noteq> NULL
                      then store32 L from_env_store (env_ipc_from (env L w1)) w1 else w1);
                w3 = (if perm_store \<noteq> NULL
                      then store32 L perm_store (env_ipc_perm (env L w2)) w2 else w2)
            in Some (env_ipc_value (env L w3), w3))"

subsection \<open>\<^verbatim>\<open>ipc_send\<close>\<close>

text \<open>
  One pass through the body of the \<^verbatim>\<open>do ... while\<close> loop: the delivery attempt,
  then \<^verbatim>\<open>sys_yield()\<close>.
\<close>

definition ipc_send_body ::
  "'w lib \<Rightarrow> envid_t \<Rightarrow> word32 \<Rightarrow> addr \<Rightarrow> word32 \<Rightarrow> 'w \<Rightarrow> word32 \<times> 'w" where
  "ipc_send_body L to_env val pg perm w =
     (let (r, w1) = (if pg = NULL then sys_ipc_try_send L to_env val 0xffffffff perm w
                     else sys_ipc_try_send L to_env val pg perm w)
      in (r, sys_yield L w1))"

text \<open>
  The loop may run forever (the target may never receive), so it is run on fuel: the
  number of passes it may make.  The result is the state reached, with \<open>Some r\<close> when
  the loop has been left with \<^verbatim>\<open>r\<close>, and \<open>None\<close> when the fuel ran out while the loop
  was still retrying.
\<close>

fun ipc_send_loop ::
  "nat \<Rightarrow> 'w lib \<Rightarrow> envid_t \<Rightarrow> word32 \<Rightarrow> addr \<Rightarrow> word32 \<Rightarrow> 'w \<Rightarrow> word32 option \<times> 'w" where
  "ipc_send_loop 0 L to_env val pg perm w = (None, w)"
| "ipc_send_loop (Suc n) L to_env val pg perm w =
     (let (r, w') = ipc_send_body L to_env val pg perm w
      in if r = - E_IPC_NOT_RECV L then ipc_send_loop n L to_env val pg perm w'
         else (Some r, w'))"

text \<open>
  How a call of \<^verbatim>\<open>ipc_send\<close> ends: it returns, it panics (with the format string and
  the arguments of \<^verbatim>\<open>panic\<close>), or it is still retrying when the fuel is used up.
\<close>

datatype outcome = Returned | Panicked string "word32 list" | Retrying

definition ipc_send ::
  "nat \<Rightarrow> 'w lib \<Rightarrow> envid_t \<Rightarrow> word32 \<Rightarrow> addr \<Rightarrow> word32 \<Rightarrow> 'w \<Rightarrow> outcome \<times> 'w" where
  "ipc_send fuel L to_env val pg perm w =
     (case ipc_send_loop fuel L to_env val pg perm w of
        (None, w') \<Rightarrow> (Retrying, w')
      | (Some r, w') \<Rightarrow>
          if r <s 0 then (Panicked ''IPC send error: %e, env: %d'' [r, to_env], w')
          else (Returned, w'))"

subsection \<open>Recording the calls a library function makes\<close>

text \<open>
  An observer of the library: the same interface over the state paired with the list
  of the calls made so far, oldest first.  Each operation does what the observed
  operation does and appends its own event.
\<close>

datatype event =
    Call_ipc_recv addr
  | Call_ipc_try_send envid_t word32 addr word32
  | Call_yield
  | Store addr word32

definition traced :: "'w lib \<Rightarrow> ('w \<times> event list) lib" where
  "traced L =
     \<lparr> E_IPC_NOT_RECV = E_IPC_NOT_RECV L,
       sys_ipc_recv = (\<lambda>dstva (w, t).
          case sys_ipc_recv L dstva w of
            None \<Rightarrow> None
          | Some (r, w') \<Rightarrow> Some (r, (w', t @ [Call_ipc_recv dstva]))),
       sys_ipc_try_send = (\<lambda>to_env val srcva perm (w, t).
          let (r, w') = sys_ipc_try_send L to_env val srcva perm w
          in (r, (w', t @ [Call_ipc_try_send to_env val srcva perm]))),
       sys_yield = (\<lambda>(w, t). (sys_yield L w, t @ [Call_yield])),
       env = (\<lambda>(w, t). env L w),
       store32 = (\<lambda>a v (w, t). (store32 L a v w, t @ [Store a v])) \<rparr>"

text \<open>
  A mock of the transfer call for the sender's side: the state is the number of
  delivery attempts made so far, and attempt number \<open>i\<close> (counted from 0) returns
  \<open>resp i\<close>.  Nothing else has an effect.
\<close>

definition mock :: "word32 \<Rightarrow> (nat \<Rightarrow> word32) \<Rightarrow> nat lib" where
  "mock e resp =
     \<lparr> E_IPC_NOT_RECV = e,
       sys_ipc_recv = (\<lambda>dstva n. None),
       sys_ipc_try_send = (\<lambda>to_env val srcva perm n. (resp n, Suc n)),
       sys_yield = (\<lambda>n. n),
       env = (\<lambda>n. \<lparr> env_ipc_from = 0, env_ipc_perm = 0, env_ipc_value = 0 \<rparr>),
       store32 = (\<lambda>a v n. n) \<rparr>"

definition yields :: "event list \<Rightarrow> nat" where
  "yields t = length (filter (\<lambda>e. e = Call_yield) t)"

fun is_try_send :: "event \<Rightarrow> bool" where
  "is_try_send (Call_ipc_try_send to_env val srcva perm) = True"
| "is_try_send e = False"

definition attempts :: "event list \<Rightarrow> nat" where
  "attempts t = length (filter is_try_send t)"


subsection \<open>Notions used to state the properties of the send loop\<close>

text \<open>
  The state after one pass through the loop body, and the result of the delivery
  attempt of pass number \<open>i\<close> (counted from 0) when the loop is started in \<open>w\<close> and
  not left before that pass.
\<close>

definition ipc_send_pass ::
  "'w lib \<Rightarrow> envid_t \<Rightarrow> word32 \<Rightarrow> addr \<Rightarrow> word32 \<Rightarrow> 'w \<Rightarrow> 'w" where
  "ipc_send_pass L to_env val pg perm w = snd (ipc_send_body L to_env val pg perm w)"

definition nth_result ::
  "'w lib \<Rightarrow> envid_t \<Rightarrow> word32 \<Rightarrow> addr \<Rightarrow> word32 \<Rightarrow> 'w \<Rightarrow> nat \<Rightarrow> word32" where
  "nth_result L to_env val pg perm w i =
     fst (ipc_send_body L to_env val pg perm ((ipc_send_pass L to_env val pg perm ^^ i) w))"

text \<open>The two calls that one pass through the loop body makes, in order.\<close>

definition pass_events :: "envid_t \<Rightarrow> word32 \<Rightarrow> addr \<Rightarrow> word32 \<Rightarrow> event list" where
  "pass_events to_env val pg perm =
     [Call_ipc_try_send to_env val (if pg = NULL then 0xffffffff else pg) perm, Call_yield]"

text \<open>Whether an event is a store through a pointer.\<close>

fun is_store :: "event \<Rightarrow> bool" where
  "is_store (Store a v) = True"
| "is_store e = False"

text \<open>
  A mock for the receiver's side: the state is the memory of the calling environment,
  a map from addresses to the 32-bit objects stored there.  \<^verbatim>\<open>sys_ipc_recv\<close> returns
  \<open>r\<close> at once, the global \<^verbatim>\<open>env\<close> holds \<open>e\<close>, and a store updates the memory.
\<close>

definition mock_recv :: "word32 \<Rightarrow> Env \<Rightarrow> (addr \<Rightarrow> word32) lib" where
  "mock_recv r e =
     \<lparr> E_IPC_NOT_RECV = 7,
       sys_ipc_recv = (\<lambda>dstva m. Some (r, m)),
       sys_ipc_try_send = (\<lambda>to_env val srcva perm m. (0, m)),
       sys_yield = (\<lambda>m. m),
       env = (\<lambda>m. e),
       store32 = (\<lambda>a v m. m(a := v)) \<rparr>"

section \<open>The kernel side of IPC, modelled from the specification\<close>

text \<open>
  The two system calls behind \<^verbatim>\<open>lib/ipc.c\<close> are implemented in the kernel, whose source
  is not among the files verified here.  What follows models them from the
  specification's description of the mailbox and of the two transfer primitives, so
  that the library functions can be run against them.
\<close>

unbundle bit_operations_syntax

text \<open>
  Modelled from the spec: the results of the transfer primitives \<open>tryDeliver\<close>
  (Success, NotReceiving, OtherError) and \<open>postReceive\<close> (success or ValidationError);
  the kernel's system-call code is missing.
\<close>

datatype deliver_result = Success | NotReceiving | OtherError

datatype post_result = Posted | ValidationError

text \<open>
  Modelled from the spec: the Process Mailbox of the data model (the kernel's
  \<^verbatim>\<open>struct Env\<close> declaration is missing): \<open>receiving\<close>, \<open>fromId\<close>, \<open>value\<close>,
  \<open>destAddress\<close> (an address or NONE) and \<open>perm\<close>.
\<close>

record mailbox =
  mb_receiving :: bool
  mb_fromId :: envid_t
  mb_value :: word32
  mb_destAddress :: "addr option"
  mb_perm :: word32

text \<open>
  Modelled from the spec: the kernel state that the transfer primitives work on (the
  kernel's environment table and page tables are missing): the mailbox of every
  existing process, and for every process the pages mapped in its address space, each
  with its permission.
\<close>

record kernel =
  procs :: "envid_t \<Rightarrow> mailbox option"
  mappings :: "envid_t \<Rightarrow> addr \<Rightarrow> (addr \<times> word32) option"

text \<open>
  Modelled from the spec: the external mapping service (the kernel's page-mapping
  code is missing).  Given the address spaces, the sender with its page address, the
  target with its destination address and the permission asked for, it delivers the new
  address spaces, or refuses.
\<close>

type_synonym mapping_service =
  "(envid_t \<Rightarrow> addr \<Rightarrow> (addr \<times> word32) option) \<Rightarrow> envid_t \<Rightarrow> addr \<Rightarrow> envid_t \<Rightarrow> addr \<Rightarrow> word32
   \<Rightarrow> (envid_t \<Rightarrow> addr \<Rightarrow> (addr \<times> word32) option) option"

text \<open>
  Modelled from the spec: the transfer primitive \<open>tryDeliver\<close> behind the missing
  \<^verbatim>\<open>sys_ipc_try_send\<close>.  An unknown target is an error other than NotReceiving; a target
  that is not receiving gives NotReceiving; otherwise the value and the sender's
  identity are copied into the target's mailbox and its receiving flag is cleared.  If
  a page was supplied and the target had posted a destination other than NONE, the
  mapping service maps the page there with the requested permission (or refuses,
  which is an error), and the permission is recorded; otherwise no page is
  transferred and the recorded permission is forced to zero.
\<close>

definition tryDeliver ::
  "mapping_service \<Rightarrow> envid_t \<Rightarrow> envid_t \<Rightarrow> word32 \<Rightarrow> addr option \<Rightarrow> word32 \<Rightarrow> kernel
   \<Rightarrow> deliver_result \<times> kernel" where
  "tryDeliver grant sender targetId v pageOrNone perm k =
     (case procs k targetId of
        None \<Rightarrow> (OtherError, k)
      | Some mb \<Rightarrow>
          if \<not> mb_receiving mb then (NotReceiving, k)
          else
            (case (pageOrNone, mb_destAddress mb) of
               (Some page, Some dest) \<Rightarrow>
                 (case grant (mappings k) sender page targetId dest perm of
                    None \<Rightarrow> (OtherError, k)
                  | Some m' \<Rightarrow>
                      (Success,
                       k\<lparr> procs := (procs k)(targetId \<mapsto>
                             mb\<lparr> mb_receiving := False, mb_fromId := sender,
                                 mb_value := v, mb_perm := perm \<rparr>),
                          mappings := m' \<rparr>))
             | _ \<Rightarrow>
                 (Success,
                  k\<lparr> procs := (procs k)(targetId \<mapsto>
                        mb\<lparr> mb_receiving := False, mb_fromId := sender,
                            mb_value := v, mb_perm := 0 \<rparr>) \<rparr>)))"

text \<open>
  Modelled from the spec: the transfer primitive \<open>postReceive\<close> behind the missing
  \<^verbatim>\<open>sys_ipc_recv\<close>, up to the point where the caller is suspended.  An invalid
  destination fails at once and leaves the mailbox as it is; otherwise the process is
  marked as receiving, the destination is recorded and the other mailbox fields are
  cleared.
\<close>

definition postReceive ::
  "(addr \<Rightarrow> bool) \<Rightarrow> envid_t \<Rightarrow> addr option \<Rightarrow> kernel \<Rightarrow> post_result \<times> kernel" where
  "postReceive valid_dest self destPageOrNone k =
     (case destPageOrNone of
        Some dest \<Rightarrow>
          if \<not> valid_dest dest then (ValidationError, k)
          else (Posted, k\<lparr> procs := (procs k)(self \<mapsto>
                  \<lparr> mb_receiving = True, mb_fromId = 0, mb_value = 0,
                    mb_destAddress = Some dest, mb_perm = 0 \<rparr>) \<rparr>)
      | None \<Rightarrow>
          (Posted, k\<lparr> procs := (procs k)(self \<mapsto>
                  \<lparr> mb_receiving = True, mb_fromId = 0, mb_value = 0,
                    mb_destAddress = None, mb_perm = 0 \<rparr>) \<rparr>))"

text \<open>
  Modelled from the spec: how the missing system calls read a page argument.  The
  library passes \<^verbatim>\<open>0xffffffff\<close> for "no page"; that value is NONE, every other value is
  an address.
\<close>

definition page_or_none :: "addr \<Rightarrow> addr option" where
  "page_or_none a = (if a = 0xffffffff then None else Some a)"

text \<open>
  Modelled from the spec: what the specification leaves open about the missing kernel:
  the error numbers, which destination addresses are valid (page-aligned and in the
  caller's address space), and the mapping service.
\<close>

record kconfig =
  E_not_recv :: word32
  E_other :: word32
  E_validation :: word32
  valid_dest :: "addr \<Rightarrow> bool"
  grant :: mapping_service

text \<open>
  Modelled from the spec: the state that a library function of one process runs in:
  the kernel state and the memory of that process, a map from addresses to the 32-bit
  objects stored there.
\<close>

record uworld =
  kern :: kernel
  umem :: "addr \<Rightarrow> word32"

text \<open>
  Modelled from the spec: the library interface of the process \<open>self\<close> over the
  modelled kernel (the system-call stubs and the kernel's system-call code are
  missing).  \<^verbatim>\<open>sys_ipc_try_send\<close> is \<open>tryDeliver\<close> with the result encoded as the library
  expects it (0, \<^verbatim>\<open>-E_IPC_NOT_RECV\<close>, or another negative error number).
  \<^verbatim>\<open>sys_ipc_recv\<close> is \<open>postReceive\<close>; a validation error is returned at once; otherwise
  the caller is suspended while the other processes run, which is the function
  \<open>during\<close> on the kernel state, and it is resumed with 0 only if its mailbox is no
  longer receiving after that.  \<^verbatim>\<open>sys_yield\<close> lets the other processes run, which is the
  function \<open>sched\<close>.  The global \<^verbatim>\<open>env\<close> shows the caller's own mailbox, and a store
  changes the caller's memory only.
\<close>

definition klib :: "kconfig \<Rightarrow> envid_t \<Rightarrow> (kernel \<Rightarrow> kernel) \<Rightarrow> (kernel \<Rightarrow> kernel) \<Rightarrow> uworld lib" where
  "klib C self during sched =
     \<lparr> E_IPC_NOT_RECV = E_not_recv C,
       sys_ipc_recv = (\<lambda>dstva w.
          case postReceive (valid_dest C) self (page_or_none dstva) (kern w) of
            (ValidationError, k) \<Rightarrow> Some (- E_validation C, w\<lparr> kern := k \<rparr>)
          | (Posted, k) \<Rightarrow>
              (case procs (during k) self of
                 None \<Rightarrow> None
               | Some mb \<Rightarrow>
                   if mb_receiving mb then None else Some (0, w\<lparr> kern := during k \<rparr>))),
       sys_ipc_try_send = (\<lambda>to_env val srcva perm w.
          case tryDeliver (grant C) self to_env val (page_or_none srcva) perm (kern w) of
            (Success, k) \<Rightarrow> (0, w\<lparr> kern := k \<rparr>)
          | (NotReceiving, k) \<Rightarrow> (- E_not_recv C, w\<lparr> kern := k \<rparr>)
          | (OtherError, k) \<Rightarrow> (- E_other C, w\<lparr> kern := k \<rparr>)),
       sys_yield = (\<lambda>w. w\<lparr> kern := sched (kern w) \<rparr>),
       env = (\<lambda>w.
          case procs (kern w) self of
            None \<Rightarrow> \<lparr> env_ipc_from = 0, env_ipc_perm = 0, env_ipc_value = 0 \<rparr>
          | Some mb \<Rightarrow> \<lparr> env_ipc_from = mb_fromId mb, env_ipc_perm = mb_perm mb,
                         env_ipc_value = mb_value mb \<rparr>),
       store32 = (\<lambda>a v w. w\<lparr> umem := (umem w)(a := v) \<rparr>) \<rparr>"

text \<open>
  Modelled from the spec: what happens to the kernel state while a receiver is
  suspended, in the scenario of one sender: the process \<open>sender\<close> makes one whole call
  \<^verbatim>\<open>ipc_send(to_env, val, pg, perm)\<close>, with the memory \<open>m\<close>.
\<close>

definition sender_runs ::
  "nat \<Rightarrow> kconfig \<Rightarrow> envid_t \<Rightarrow> (kernel \<Rightarrow> kernel) \<Rightarrow> envid_t \<Rightarrow> word32 \<Rightarrow> addr \<Rightarrow> word32 \<Rightarrow>
   (addr \<Rightarrow> word32) \<Rightarrow> kernel \<Rightarrow> kernel" where
  "sender_runs fuel C sender sched to_env val pg perm m k =
     kern (snd (ipc_send fuel (klib C sender (\<lambda>k. k) sched) to_env val pg perm
                  \<lparr> kern = k, umem = m \<rparr>))"

text \<open>
  The kernel state after the process \<open>q\<close> has posted a receive without a destination
  and the process \<open>p\<close> has delivered the value \<open>v\<close> to it: the mailbox of \<open>q\<close> is not
  receiving any more and holds the sender \<open>p\<close>, the value \<open>v\<close> and the permission 0;
  nothing else has changed.
\<close>

definition delivered :: "envid_t \<Rightarrow> envid_t \<Rightarrow> word32 \<Rightarrow> kernel \<Rightarrow> kernel" where
  "delivered p q v k =
     k\<lparr> procs := (procs k)(q \<mapsto>
        \<lparr> mb_receiving = False, mb_fromId = p, mb_value = v,
          mb_destAddress = None, mb_perm = 0 \<rparr>) \<rparr>"

text \<open>
  The kernel state after the process \<open>q\<close> has posted a receive with the destination
  \<open>d\<close>, and the kernel state after the process \<open>p\<close> has then delivered the value \<open>v\<close>
  to it, with the permission \<open>perm\<close> recorded and the address spaces \<open>maps\<close>.
\<close>

definition posted :: "envid_t \<Rightarrow> addr option \<Rightarrow> kernel \<Rightarrow> kernel" where
  "posted q d k =
     k\<lparr> procs := (procs k)(q \<mapsto>
        \<lparr> mb_receiving = True, mb_fromId = 0, mb_value = 0,
          mb_destAddress = d, mb_perm = 0 \<rparr>) \<rparr>"

definition after_delivery ::
  "envid_t \<Rightarrow> envid_t \<Rightarrow> word32 \<Rightarrow> addr option \<Rightarrow> word32 \<Rightarrow>
   (envid_t \<Rightarrow> addr \<Rightarrow> (addr \<times> word32) option) \<Rightarrow> kernel \<Rightarrow> kernel" where
  "after_delivery p q v d perm maps k =
     k\<lparr> procs := (procs k)(q \<mapsto>
        \<lparr> mb_receiving = False, mb_fromId = p, mb_value = v,
          mb_destAddress = d, mb_perm = perm \<rparr>),
        mappings := maps \<rparr>"

text \<open>
  Modelled from the spec: whether a page is actually transferred when the sender calls
  \<^verbatim>\<open>ipc_send\<close> with the page \<open>spg\<close> and the permission \<open>sperm\<close> and the target has
  called \<^verbatim>\<open>ipc_recv\<close> with the destination \<open>pg\<close> (the kernel's system-call code is
  missing).  A page is transferred when the sender supplied one, the target posted a
  valid destination other than NONE, and the mapping service grants the mapping: the
  result is then the new address spaces.  Otherwise no page is transferred.
\<close>

definition page_transfer ::
  "kconfig \<Rightarrow> kernel \<Rightarrow> envid_t \<Rightarrow> addr \<Rightarrow> word32 \<Rightarrow> envid_t \<Rightarrow> addr
   \<Rightarrow> (envid_t \<Rightarrow> addr \<Rightarrow> (addr \<times> word32) option) option" where
  "page_transfer C k sender spg sperm target pg =
     (case (page_or_none (if spg = NULL then 0xffffffff else spg),
            page_or_none (if pg = NULL then 0xffffffff else pg)) of
        (Some page, Some dest) \<Rightarrow>
          if valid_dest C dest then grant C (mappings k) sender page target dest sperm
          else None
      | _ \<Rightarrow> None)"

text \<open>
  An instance of the modelled kernel: error numbers, page-aligned destinations, a
  mapping service that refuses a page the sender has not mapped and a permission
  beyond the sender's own; and a kernel state with the two processes 1 and 2, where
  process 1 has one page mapped.
\<close>

definition kconfig0 :: kconfig where
  "kconfig0 =
     \<lparr> E_not_recv = 7, E_other = 2, E_validation = 3,
       valid_dest = (\<lambda>a. a mod 4096 = 0),
       grant = (\<lambda>maps sender src target dst perm.
          case maps sender src of
            None \<Rightarrow> None
          | Some (page, own) \<Rightarrow>
              if perm AND NOT own \<noteq> 0 then None
              else Some (maps(target := (maps target)(dst \<mapsto> (page, perm))))) \<rparr>"

definition kernel0 :: kernel where
  "kernel0 =
     \<lparr> procs = (\<lambda>i. if i = 1 \<or> i = 2
                    then Some \<lparr> mb_receiving = False, mb_fromId = 0, mb_value = 0,
                                mb_destAddress = None, mb_perm = 0 \<rparr>
                    else None),
       mappings = (\<lambda>i. if i = 1 then [0x800000 \<mapsto> (0x5000, 7)] else Map.empty) \<rparr>"

section \<open>Kernel monitor: the stack backtrace (kern/monitor.c)\<close>

text \<open>
  The fields of \<^verbatim>\<open>struct Eipdebuginfo\<close> that \<^verbatim>\<open>mon_backtrace\<close> prints.  The two \<^verbatim>\<open>char *\<close>
  fields are modelled by the strings they point to.
\<close>

record Eipdebuginfo =
  eip_file :: string
  eip_line :: word32
  eip_fn_name :: string
  eip_fn_namelen :: word32
  eip_fn_addr :: word32

text \<open>
  The console output is the list of the calls of \<^verbatim>\<open>cprintf\<close>, oldest first, each with
  its format string and its arguments (a 32-bit value or a string).  The formatting
  itself is done by \<^verbatim>\<open>cprintf\<close>, which is not part of \<^verbatim>\<open>kern/monitor.c\<close>.
\<close>

datatype fmt_arg = Word word32 | Str string

datatype cprintf_call = Cprintf string "fmt_arg list"

text \<open>
  What \<^verbatim>\<open>mon_backtrace\<close> takes from the machine and from the rest of the kernel: the
  values that \<^verbatim>\<open>read_ebp()\<close> and \<^verbatim>\<open>read_eip()\<close> deliver, the memory as the function
  that gives the result of a 32-bit load \<^verbatim>\<open>*(unsigned int *) a\<close> at each address,
  \<^verbatim>\<open>debuginfo_eip\<close>, which updates the structure it is given for an address (its
  \<^verbatim>\<open>int\<close> result is ignored by the caller), and the content of the uninitialised local
  \<^verbatim>\<open>eip_info\<close>.  The walk only reads memory, and it reads frames of the callers, which
  the calls made during the walk do not write to; so the memory is the same at every
  load.
\<close>

record machine =
  read_ebp :: word32
  read_eip :: word32
  load32 :: "addr \<Rightarrow> word32"
  debuginfo_eip :: "word32 \<Rightarrow> Eipdebuginfo \<Rightarrow> Eipdebuginfo"
  eip_info_uninit :: Eipdebuginfo

text \<open>
  The \<^verbatim>\<open>while (ebp != 0)\<close> loop.  It runs forever on a frame-pointer chain that never
  reaches zero, so it is a partial function: \<open>None\<close> when the loop does not end.
\<close>

partial_function (option) backtrace_loop ::
  "(addr \<Rightarrow> word32) \<Rightarrow> (word32 \<Rightarrow> Eipdebuginfo \<Rightarrow> Eipdebuginfo) \<Rightarrow>
   word32 \<Rightarrow> Eipdebuginfo \<Rightarrow> cprintf_call list \<Rightarrow> cprintf_call list option" where
  "backtrace_loop mem dbg ebp eip_info con =
     (if ebp \<noteq> 0 then
        let eip = mem (ebp + 4);
            con1 = con @ [Cprintf ''  ebp %x eip %x  args'' [Word ebp, Word eip]];
            con2 = con1 @ map (\<lambda>i. Cprintf '' %08x'' [Word (mem (ebp + 8 + 4 * of_nat i))]) [0..<5];
            con3 = con2 @ [Cprintf ''\<newline>'' []];
            eip_info' = dbg eip eip_info;
            con4 = con3 @ [Cprintf ''    %s:%u: %.*s+%u\<newline>''
                     [Str (eip_file eip_info'), Word (eip_line eip_info'),
                      Word (eip_fn_namelen eip_info'), Str (eip_fn_name eip_info'),
                      Word (eip - eip_fn_addr eip_info')]]
        in backtrace_loop mem dbg (mem ebp) eip_info' con4
      else Some con)"

declare backtrace_loop.simps [code]

definition mon_backtrace ::
  "machine \<Rightarrow> word32 \<Rightarrow> addr \<Rightarrow> addr \<Rightarrow> cprintf_call list \<Rightarrow> (word32 \<times> cprintf_call list) option" where
  "mon_backtrace M argc argv tf con =
     (let ebp = read_ebp M;
          eip = read_eip M;
          con1 = con @ [Cprintf ''Stack backtrace:\<newline>'' []]
      in case backtrace_loop (load32 M) (debuginfo_eip M) ebp (eip_info_uninit M) con1 of
           None \<Rightarrow> None
         | Some con' \<Rightarrow> Some (0, con'))"

subsection \<open>Notions used to state the properties of the walk\<close>

text \<open>
  \<open>chain mem ebp fps\<close>: following the saved frame pointers from \<open>ebp\<close> visits exactly
  the frames \<open>fps\<close>, none of them zero, and then reaches zero.
\<close>

fun chain :: "(addr \<Rightarrow> word32) \<Rightarrow> word32 \<Rightarrow> word32 list \<Rightarrow> bool" where
  "chain mem ebp [] = (ebp = 0)"
| "chain mem ebp (fp # fps) = (ebp \<noteq> 0 \<and> fp = ebp \<and> chain mem (mem ebp) fps)"

text \<open>
  The frame descriptor of the design: frame pointer, return address, the five
  argument words, and what the debug-info resolver delivered.  \<open>descriptors\<close> lists
  the descriptors of the frames \<open>fps\<close>, and \<open>print_descriptor\<close> is the console output
  for one descriptor.
\<close>

record frame_descriptor =
  framePointer :: word32
  returnAddress :: word32
  argumentWords :: "word32 list"
  resolved :: Eipdebuginfo

fun descriptors ::
  "(addr \<Rightarrow> word32) \<Rightarrow> (word32 \<Rightarrow> Eipdebuginfo \<Rightarrow> Eipdebuginfo) \<Rightarrow> Eipdebuginfo \<Rightarrow>
   word32 list \<Rightarrow> frame_descriptor list" where
  "descriptors mem dbg info [] = []"
| "descriptors mem dbg info (fp # fps) =
     \<lparr> framePointer = fp,
       returnAddress = mem (fp + 4),
       argumentWords = [mem (fp + 8), mem (fp + 12), mem (fp + 16), mem (fp + 20), mem (fp + 24)],
       resolved = dbg (mem (fp + 4)) info \<rparr>
     # descriptors mem dbg (dbg (mem (fp + 4)) info) fps"

definition print_descriptor :: "frame_descriptor \<Rightarrow> cprintf_call list" where
  "print_descriptor d =
     [Cprintf ''  ebp %x eip %x  args'' [Word (framePointer d), Word (returnAddress d)]] @
     map (\<lambda>a. Cprintf '' %08x'' [Word a]) (argumentWords d) @
     [Cprintf ''\<newline>'' [],
      Cprintf ''    %s:%u: %.*s+%u\<newline>''
        [Str (eip_file (resolved d)), Word (eip_line (resolved d)),
         Word (eip_fn_namelen (resolved d)), Str (eip_fn_name (resolved d)),
         Word (returnAddress d - eip_fn_addr (resolved d))]]"

text \<open>
  A synthetic stack of depth 3 with frames at \<^verbatim>\<open>0x1000\<close>, \<^verbatim>\<open>0x2000\<close> and \<^verbatim>\<open>0x3000\<close>, a
  resolver, and the machine that starts the walk at \<^verbatim>\<open>0x1000\<close>.
\<close>

definition stack3 :: "addr \<Rightarrow> word32" where
  "stack3 a =
     (case map_of
        [(0x1000, 0x2000), (0x1004, 0xf0100128), (0x1008, 1), (0x100c, 2), (0x1010, 3),
         (0x1014, 4), (0x1018, 5),
         (0x2000, 0x3000), (0x2004, 0xf0100234), (0x2008, 6), (0x200c, 7), (0x2010, 8),
         (0x2014, 9), (0x2018, 10),
         (0x3000, 0), (0x3004, 0xf010003e), (0x3008, 11), (0x300c, 12), (0x3010, 13),
         (0x3014, 14), (0x3018, 15)] a of
        None \<Rightarrow> 0xdeadbeef
      | Some v \<Rightarrow> v)"

definition resolver3 :: "word32 \<Rightarrow> Eipdebuginfo \<Rightarrow> Eipdebuginfo" where
  "resolver3 eip info =
     (if eip = 0xf010003e
      then \<lparr> eip_file = ''kern/entry.S'', eip_line = 70, eip_fn_name = ''<unknown>'',
             eip_fn_namelen = 9, eip_fn_addr = 0xf010003e \<rparr>
      else \<lparr> eip_file = ''kern/init.c'', eip_line = 24, eip_fn_name = ''test_backtrace'',
             eip_fn_namelen = 14, eip_fn_addr = 0xf0100100 \<rparr>)"

definition machine3 :: machine where
  "machine3 =
     \<lparr> read_ebp = 0x1000, read_eip = 0xf0100300, load32 = stack3,
       debuginfo_eip = resolver3,
       eip_info_uninit = \<lparr> eip_file = [], eip_line = 0, eip_fn_name = [],
                            eip_fn_namelen = 0, eip_fn_addr = 0 \<rparr> \<rparr>"

section \<open>Properties of the IPC library\<close>

subsection \<open>Auxiliary facts about the send loop\<close>

lemma nth_result_0: "nth_result L to_env val pg perm w 0 = fst (ipc_send_body L to_env val pg perm w)"
  by (simp add: nth_result_def)

lemma nth_result_Suc:
  "nth_result L to_env val pg perm w (Suc i) =
   nth_result L to_env val pg perm (ipc_send_pass L to_env val pg perm w) i"
  by (simp add: nth_result_def funpow_swap1)

lemma loop_Suc:
  "ipc_send_loop (Suc n) L to_env val pg perm w =
     (if fst (ipc_send_body L to_env val pg perm w) = - E_IPC_NOT_RECV L
      then ipc_send_loop n L to_env val pg perm (ipc_send_pass L to_env val pg perm w)
      else (Some (fst (ipc_send_body L to_env val pg perm w)),
            ipc_send_pass L to_env val pg perm w))"
  by (simp add: ipc_send_pass_def split: prod.splits)

lemma ipc_send_loop_numeral:
  "ipc_send_loop (numeral k) L to_env val pg perm w =
     (let (r, w') = ipc_send_body L to_env val pg perm w
      in if r = - E_IPC_NOT_RECV L then ipc_send_loop (pred_numeral k) L to_env val pg perm w'
         else (Some r, w'))"
  by (simp add: numeral_eq_Suc)

lemma minus_seven_negative: "- 7 <s (0::word32)"
  by (simp add: word_sless_alt)

lemma loop_left:
  "\<forall>i<N. nth_result L to_env val pg perm w i = - E_IPC_NOT_RECV L \<Longrightarrow>
   nth_result L to_env val pg perm w N \<noteq> - E_IPC_NOT_RECV L \<Longrightarrow> N < fuel \<Longrightarrow>
   ipc_send_loop fuel L to_env val pg perm w =
     (Some (nth_result L to_env val pg perm w N),
      (ipc_send_pass L to_env val pg perm ^^ Suc N) w)"
proof (induction N arbitrary: fuel w)
  case 0
  then obtain n where n: "fuel = Suc n" by (cases fuel) auto
  from 0 show ?case
    by (simp add: n nth_result_0 loop_Suc del: ipc_send_loop.simps)
next
  case (Suc N)
  then obtain n where n: "fuel = Suc n" by (cases fuel) auto
  let ?w = "ipc_send_pass L to_env val pg perm w"
  have a: "\<forall>i<N. nth_result L to_env val pg perm ?w i = - E_IPC_NOT_RECV L"
    using Suc.prems(1) by (auto simp: nth_result_Suc [symmetric])
  have b: "nth_result L to_env val pg perm ?w N \<noteq> - E_IPC_NOT_RECV L"
    using Suc.prems(2) by (simp add: nth_result_Suc)
  have c: "fst (ipc_send_body L to_env val pg perm w) = - E_IPC_NOT_RECV L"
    using Suc.prems(1) by (auto simp: nth_result_0 [symmetric])
  have "ipc_send_loop fuel L to_env val pg perm w = ipc_send_loop n L to_env val pg perm ?w"
    using c by (simp add: n loop_Suc del: ipc_send_loop.simps)
  also have "\<dots> = (Some (nth_result L to_env val pg perm ?w N),
      (ipc_send_pass L to_env val pg perm ^^ Suc N) ?w)"
    using Suc.IH [OF a b] Suc.prems(3) n by simp
  finally show ?case
    by (simp add: nth_result_Suc funpow_swap1)
qed

lemma loop_retrying:
  "\<forall>i<fuel. nth_result L to_env val pg perm w i = - E_IPC_NOT_RECV L \<Longrightarrow>
   ipc_send_loop fuel L to_env val pg perm w =
     (None, (ipc_send_pass L to_env val pg perm ^^ fuel) w)"
proof (induction fuel arbitrary: w)
  case 0
  show ?case by simp
next
  case (Suc n)
  let ?w = "ipc_send_pass L to_env val pg perm w"
  have a: "\<forall>i<n. nth_result L to_env val pg perm ?w i = - E_IPC_NOT_RECV L"
    using Suc.prems by (auto simp: nth_result_Suc [symmetric])
  have c: "fst (ipc_send_body L to_env val pg perm w) = - E_IPC_NOT_RECV L"
    using Suc.prems by (auto simp: nth_result_0 [symmetric])
  have "ipc_send_loop (Suc n) L to_env val pg perm w = ipc_send_loop n L to_env val pg perm ?w"
    using c by (simp add: loop_Suc del: ipc_send_loop.simps)
  then show ?case
    using Suc.IH [OF a] by (simp add: funpow_swap1)
qed

text \<open>
  Either some pass below the fuel is the first whose attempt is not answered with
  \<^verbatim>\<open>-E_IPC_NOT_RECV\<close>, or every pass below the fuel is answered with it.
\<close>

lemma loop_cases:
  obtains (left) N where "N < fuel" "\<forall>i<N. nth_result L to_env val pg perm w i = - E_IPC_NOT_RECV L"
      "nth_result L to_env val pg perm w N \<noteq> - E_IPC_NOT_RECV L"
  | (retrying) "\<forall>i<fuel. nth_result L to_env val pg perm w i = - E_IPC_NOT_RECV L"
proof (cases "\<exists>i<fuel. nth_result L to_env val pg perm w i \<noteq> - E_IPC_NOT_RECV L")
  case True
  define N where "N = (LEAST i. nth_result L to_env val pg perm w i \<noteq> - E_IPC_NOT_RECV L)"
  from True obtain j where j: "j < fuel" "nth_result L to_env val pg perm w j \<noteq> - E_IPC_NOT_RECV L"
    by blast
  have 1: "nth_result L to_env val pg perm w N \<noteq> - E_IPC_NOT_RECV L"
    unfolding N_def using j(2) by (rule LeastI)
  have 2: "N \<le> j" unfolding N_def using j(2) by (rule Least_le)
  have 3: "\<forall>i<N. nth_result L to_env val pg perm w i = - E_IPC_NOT_RECV L"
    unfolding N_def using not_less_Least by blast
  show ?thesis using left [of N] 1 2 3 j(1) by simp
next
  case False
  then show ?thesis using retrying by blast
qed


lemma body_traced:
  "ipc_send_body (traced L) to_env val pg perm (w, t) =
     (fst (ipc_send_body L to_env val pg perm w),
      (ipc_send_pass L to_env val pg perm w, t @ pass_events to_env val pg perm))"
  by (simp add: ipc_send_body_def ipc_send_pass_def traced_def pass_events_def split: prod.splits)

lemma pass_traced:
  "ipc_send_pass (traced L) to_env val pg perm (w, t) =
     (ipc_send_pass L to_env val pg perm w, t @ pass_events to_env val pg perm)"
  by (simp add: ipc_send_pass_def [of "traced L"] body_traced)

lemma concat_replicate_comm: "concat (replicate n xs) @ xs = xs @ concat (replicate n xs)"
  by (induction n) simp_all

lemma pass_traced_funpow:
  "(ipc_send_pass (traced L) to_env val pg perm ^^ n) (w, t) =
     ((ipc_send_pass L to_env val pg perm ^^ n) w,
      t @ concat (replicate n (pass_events to_env val pg perm)))"
  by (induction n arbitrary: w t) (simp_all add: pass_traced concat_replicate_comm)

lemma nth_result_traced:
  "nth_result (traced L) to_env val pg perm (w, t) i = nth_result L to_env val pg perm w i"
  by (simp add: nth_result_def pass_traced_funpow body_traced)

lemma E_traced: "E_IPC_NOT_RECV (traced L) = E_IPC_NOT_RECV L"
  by (simp add: traced_def)

lemma ipc_send_loop_trace:
  "\<exists>n w'. n \<le> fuel \<and>
     snd (ipc_send_loop fuel (traced L) to_env val pg perm (w, t)) =
       (w', t @ concat (replicate n (pass_events to_env val pg perm))) \<and>
     (fst (ipc_send_loop fuel (traced L) to_env val pg perm (w, t)) = None \<longrightarrow> n = fuel) \<and>
     (fst (ipc_send_loop fuel (traced L) to_env val pg perm (w, t)) \<noteq> None \<longrightarrow> 0 < n)"
proof (cases rule: loop_cases [of fuel "traced L" to_env val pg perm "(w, t)"])
  case (left N)
  then show ?thesis
    using loop_left [of N "traced L" to_env val pg perm "(w, t)" fuel]
    by (intro exI [of _ "Suc N"]) (simp add: pass_traced_funpow del: replicate.simps funpow.simps)
next
  case retrying
  then show ?thesis
    using loop_retrying [of fuel "traced L" to_env val pg perm "(w, t)"]
    by (intro exI [of _ fuel]) (simp add: pass_traced_funpow)
qed

lemma yields_passes: "yields (concat (replicate n (pass_events to_env val pg perm))) = n"
  by (induction n) (simp_all add: yields_def pass_events_def)

lemma attempts_passes: "attempts (concat (replicate n (pass_events to_env val pg perm))) = n"
  by (induction n) (simp_all add: attempts_def pass_events_def)

lemma pass_mock_funpow: "(ipc_send_pass (mock e resp) to_env val pg perm ^^ n) k = k + n"
  by (induction n) (simp_all add: ipc_send_pass_def ipc_send_body_def mock_def)

lemma nth_result_mock: "nth_result (mock e resp) to_env val pg perm k i = resp (k + i)"
  by (simp add: nth_result_def pass_mock_funpow) (simp add: ipc_send_body_def mock_def)

lemma E_mock: "E_IPC_NOT_RECV (mock e resp) = e"
  by (simp add: mock_def)

lemma sless_not_eq: "a <s (b::word32) \<Longrightarrow> \<not> c <s b \<Longrightarrow> c \<noteq> a"
  by auto

lemma ipc_send_left:
  assumes "\<forall>i<N. nth_result L to_env val pg perm w i = - E_IPC_NOT_RECV L"
    and "nth_result L to_env val pg perm w N \<noteq> - E_IPC_NOT_RECV L" and "N < fuel"
  shows "ipc_send fuel L to_env val pg perm w =
     (if nth_result L to_env val pg perm w N <s 0
      then Panicked ''IPC send error: %e, env: %d'' [nth_result L to_env val pg perm w N, to_env]
      else Returned, (ipc_send_pass L to_env val pg perm ^^ Suc N) w)"
  unfolding ipc_send_def loop_left [OF assms] by simp

lemma ipc_send_retrying:
  assumes "\<forall>i<fuel. nth_result L to_env val pg perm w i = - E_IPC_NOT_RECV L"
  shows "ipc_send fuel L to_env val pg perm w =
     (Retrying, (ipc_send_pass L to_env val pg perm ^^ fuel) w)"
  unfolding ipc_send_def loop_retrying [OF assms] by simp


lemma first_other_unique:
  assumes "\<forall>i<N. f i = (c::word32)" "f N \<noteq> c" "\<forall>i<M. f i = c" "f M \<noteq> c"
  shows "M = (N::nat)"
proof (rule ccontr)
  assume "M \<noteq> N"
  then consider "M < N" | "N < M" by linarith
  then show False
  proof cases
    case 1
    with assms(1,4) show False by blast
  next
    case 2
    with assms(2,3) show False by blast
  qed
qed

lemma ipc_send_snd:
  "snd (ipc_send fuel L to_env val pg perm w) = snd (ipc_send_loop fuel L to_env val pg perm w)"
  by (simp add: ipc_send_def split: prod.splits option.splits)

lemma ipc_send_Retrying:
  "fst (ipc_send fuel L to_env val pg perm w) = Retrying \<longleftrightarrow>
   fst (ipc_send_loop fuel L to_env val pg perm w) = None"
  by (simp add: ipc_send_def split: prod.splits option.splits)

lemma ipc_send_trace:
  "\<exists>n w'. n \<le> fuel \<and>
     snd (ipc_send fuel (traced L) to_env val pg perm (w, t)) =
       (w', t @ concat (replicate n (pass_events to_env val pg perm))) \<and>
     (fst (ipc_send fuel (traced L) to_env val pg perm (w, t)) = Retrying \<longrightarrow> n = fuel) \<and>
     (fst (ipc_send fuel (traced L) to_env val pg perm (w, t)) \<noteq> Retrying \<longrightarrow> 0 < n)"
  unfolding ipc_send_snd ipc_send_Retrying
  by (rule ipc_send_loop_trace)

subsection \<open>The retry loop of \<^verbatim>\<open>ipc_send\<close>\<close>

text \<open>
  C1, as stated, fails.  The claim: when the transfer call answers \<^verbatim>\<open>-E_IPC_NOT_RECV\<close>
  on exactly the first \<open>N\<close> calls and succeeds on call \<open>N + 1\<close>, \<^verbatim>\<open>ipc_send\<close> calls
  \<^verbatim>\<open>sys_yield\<close> exactly \<open>N\<close> times.  With \<open>N = 2\<close> (error number 7, the third call
  answers 0) the call returns after three delivery attempts and three calls of
  \<^verbatim>\<open>sys_yield\<close>, not two: the yield is inside the loop body and follows the successful
  attempt as well.
\<close>

theorem ipc_send_yields_counterexample:
  "fst (ipc_send 3 (traced (mock 7 (\<lambda>i. if i < 2 then - 7 else 0))) 1 42 NULL 0 (0, []))
     = Returned \<and>
   attempts (snd (snd
     (ipc_send 3 (traced (mock 7 (\<lambda>i. if i < 2 then - 7 else 0))) 1 42 NULL 0 (0, [])))) = 3 \<and>
   yields (snd (snd
     (ipc_send 3 (traced (mock 7 (\<lambda>i. if i < 2 then - 7 else 0))) 1 42 NULL 0 (0, [])))) = 3 \<and>
   yields (snd (snd
     (ipc_send 3 (traced (mock 7 (\<lambda>i. if i < 2 then - 7 else 0))) 1 42 NULL 0 (0, [])))) \<noteq> 2"
  by (simp add: ipc_send_def ipc_send_loop_numeral ipc_send_body_def traced_def mock_def
        yields_def attempts_def)

text \<open>
  C1, amended.  For every \<open>N\<close>: if the transfer call answers \<^verbatim>\<open>-E_IPC_NOT_RECV\<close> (a
  negative number) on exactly the first \<open>N\<close> calls and a non-negative result on call
  \<open>N + 1\<close>, then a call of \<^verbatim>\<open>ipc_send\<close> that is given fuel for more than \<open>N\<close> passes
  returns, having made exactly \<open>N + 1\<close> delivery attempts, each followed by one call of
  \<^verbatim>\<open>sys_yield\<close>: \<open>N + 1\<close> yields, and no delivery attempt after the successful one,
  however much fuel is left.
\<close>

theorem ipc_send_retry_yields:
  assumes neg: "- e <s 0"
    and nr: "\<forall>i<N. resp i = - e"
    and ok: "\<not> resp N <s 0"
    and fuel: "N < fuel"
  shows "ipc_send fuel (traced (mock e resp)) to_env val pg perm (0, []) =
           (Returned, (Suc N, concat (replicate (Suc N)
              [Call_ipc_try_send to_env val (if pg = NULL then 0xffffffff else pg) perm,
               Call_yield]))) \<and>
         yields (snd (snd (ipc_send fuel (traced (mock e resp)) to_env val pg perm (0, []))))
           = Suc N \<and>
         attempts (snd (snd (ipc_send fuel (traced (mock e resp)) to_env val pg perm (0, []))))
           = Suc N"
proof -
  let ?L = "traced (mock e resp)"
  have a: "\<forall>i<N. nth_result ?L to_env val pg perm (0, []) i = - E_IPC_NOT_RECV ?L"
    using nr by (simp add: nth_result_traced nth_result_mock E_traced E_mock)
  have b: "nth_result ?L to_env val pg perm (0, []) N \<noteq> - E_IPC_NOT_RECV ?L"
    using sless_not_eq [OF neg ok] by (simp add: nth_result_traced nth_result_mock E_traced E_mock)
  have "ipc_send_loop fuel ?L to_env val pg perm (0, []) =
          (Some (resp N), (Suc N, concat (replicate (Suc N) (pass_events to_env val pg perm))))"
    using loop_left [OF a b fuel]
    by (simp add: nth_result_traced nth_result_mock pass_traced_funpow pass_mock_funpow
             del: replicate.simps funpow.simps)
  then have 1: "ipc_send fuel ?L to_env val pg perm (0, []) =
           (Returned, (Suc N, concat (replicate (Suc N) (pass_events to_env val pg perm))))"
    using ok by (simp add: ipc_send_def)
  have 2: "yields (snd (snd (ipc_send fuel ?L to_env val pg perm (0, [])))) = Suc N"
    by (simp only: 1 snd_conv yields_passes)
  have 3: "attempts (snd (snd (ipc_send fuel ?L to_env val pg perm (0, [])))) = Suc N"
    by (simp only: 1 snd_conv attempts_passes)
  from 1 2 3 show ?thesis
    unfolding pass_events_def by blast
qed

text \<open>
  The amended C1 at \<open>N = 2\<close>: two answers \<^verbatim>\<open>-E_IPC_NOT_RECV\<close> (here \<open>-7\<close>), then success,
  with fuel for five passes.
\<close>

theorem ipc_send_retry_yields_witness:
  "- 7 <s (0::word32) \<and>
   yields (snd (snd
     (ipc_send 5 (traced (mock 7 (\<lambda>i. if i < 2 then - 7 else 0))) 1 42 NULL 0 (0, [])))) = 3 \<and>
   attempts (snd (snd
     (ipc_send 5 (traced (mock 7 (\<lambda>i. if i < 2 then - 7 else 0))) 1 42 NULL 0 (0, [])))) = 3"
proof -
  have neg: "- 7 <s (0::word32)" by (rule minus_seven_negative)
  have nr: "\<forall>i<2. (\<lambda>i. if i < 2 then - 7 else (0::word32)) i = - 7" by simp
  have ok: "\<not> (\<lambda>i::nat. if i < 2 then - 7 else (0::word32)) 2 <s 0" by simp
  have fuel: "(2::nat) < 5" by simp
  have three: "Suc 2 = 3" by simp
  show ?thesis
    using neg ipc_send_retry_yields [OF neg nr ok fuel, of 1 42 NULL 0]
    unfolding three by blast
qed

text \<open>
  C2.  Let the error number be positive as a signed number, so that
  \<^verbatim>\<open>-E_IPC_NOT_RECV\<close> is negative.  A call of \<^verbatim>\<open>ipc_send\<close> returns normally exactly when
  some delivery attempt has a non-negative result and every attempt before it was
  answered with \<^verbatim>\<open>-E_IPC_NOT_RECV\<close>.  It panics exactly when the first result other than
  \<^verbatim>\<open>-E_IPC_NOT_RECV\<close> is negative, and the panic carries that result, which is never
  \<^verbatim>\<open>-E_IPC_NOT_RECV\<close> itself.  It is still retrying when the fuel is used up exactly
  when every attempt so far was answered with \<^verbatim>\<open>-E_IPC_NOT_RECV\<close>: that result is
  never handed to the caller, it only leads to the next attempt.
\<close>

theorem ipc_send_outcome:
  assumes neg: "- E_IPC_NOT_RECV L <s 0"
  shows "(fst (ipc_send fuel L to_env val pg perm w) = Returned \<longleftrightarrow>
            (\<exists>N<fuel. (\<forall>i<N. nth_result L to_env val pg perm w i = - E_IPC_NOT_RECV L) \<and>
                       \<not> nth_result L to_env val pg perm w N <s 0)) \<and>
         (\<forall>f as. fst (ipc_send fuel L to_env val pg perm w) = Panicked f as \<longleftrightarrow>
            (\<exists>N<fuel. (\<forall>i<N. nth_result L to_env val pg perm w i = - E_IPC_NOT_RECV L) \<and>
                       nth_result L to_env val pg perm w N <s 0 \<and>
                       nth_result L to_env val pg perm w N \<noteq> - E_IPC_NOT_RECV L \<and>
                       f = ''IPC send error: %e, env: %d'' \<and>
                       as = [nth_result L to_env val pg perm w N, to_env])) \<and>
         (fst (ipc_send fuel L to_env val pg perm w) = Retrying \<longleftrightarrow>
            (\<forall>i<fuel. nth_result L to_env val pg perm w i = - E_IPC_NOT_RECV L))"
    (is "(?out = Returned \<longleftrightarrow> ?R) \<and> (\<forall>f as. ?out = Panicked f as \<longleftrightarrow> ?P f as) \<and>
         (?out = Retrying \<longleftrightarrow> ?S)")
proof -
  let ?res = "nth_result L to_env val pg perm w"
  let ?E = "- E_IPC_NOT_RECV L"
  have nonneg: "?res M \<noteq> ?E" if "\<not> ?res M <s 0" for M
    using neg that by auto
  show ?thesis
  proof (cases rule: loop_cases [of fuel L to_env val pg perm w])
    case (left N)
    have out: "?out = (if ?res N <s 0
        then Panicked ''IPC send error: %e, env: %d'' [?res N, to_env] else Returned)"
      unfolding ipc_send_left [OF left(2,3,1)] by simp
    have uniq: "M = N" if "\<forall>i<M. ?res i = ?E" "?res M \<noteq> ?E" for M
      using first_other_unique [OF left(2,3) that] .
    have notS: "\<not> ?S" using left(1,3) by blast
    have R: "?R \<longleftrightarrow> \<not> ?res N <s 0"
    proof
      assume ?R
      then obtain M where M: "M < fuel" "\<forall>i<M. ?res i = ?E" "\<not> ?res M <s 0" by blast
      from uniq [OF M(2) nonneg [OF M(3)]] M(3) show "\<not> ?res N <s 0" by simp
    next
      assume "\<not> ?res N <s 0"
      with left(1,2) show ?R by blast
    qed
    have P: "?P f as \<longleftrightarrow> (?res N <s 0 \<and> f = ''IPC send error: %e, env: %d'' \<and>
        as = [?res N, to_env])" for f as
    proof
      assume "?P f as"
      then obtain M where M: "M < fuel" "\<forall>i<M. ?res i = ?E" "?res M <s 0" "?res M \<noteq> ?E"
        "f = ''IPC send error: %e, env: %d''" "as = [?res M, to_env]" by blast
      from uniq [OF M(2) M(4)] M(3,5,6)
      show "?res N <s 0 \<and> f = ''IPC send error: %e, env: %d'' \<and> as = [?res N, to_env]"
        by simp
    next
      assume "?res N <s 0 \<and> f = ''IPC send error: %e, env: %d'' \<and> as = [?res N, to_env]"
      with left show "?P f as" by blast
    qed
    have 1: "?out = Returned \<longleftrightarrow> ?R" unfolding R out by simp
    have 2: "\<forall>f as. ?out = Panicked f as \<longleftrightarrow> ?P f as" unfolding P out by auto
    have 3: "?out = Retrying \<longleftrightarrow> ?S" using notS unfolding out by simp
    from 1 2 3 show ?thesis by blast
  next
    case retrying
    have out: "?out = Retrying"
      unfolding ipc_send_retrying [OF retrying] by simp
    have notR: "\<not> ?R" using retrying nonneg by blast
    have notP: "\<not> ?P f as" for f as using retrying by blast
    have 1: "?out = Returned \<longleftrightarrow> ?R" using notR unfolding out by simp
    have 2: "\<forall>f as. ?out = Panicked f as \<longleftrightarrow> ?P f as" using notP unfolding out by simp
    have 3: "?out = Retrying \<longleftrightarrow> ?S" using retrying unfolding out by simp
    from 1 2 3 show ?thesis by blast
  qed
qed

text \<open>
  C2 at concrete inputs: the mock with error number 7 that answers \<open>-7\<close> twice and then
  0 makes the call return; answering \<open>-3\<close> on the third call makes it panic with that
  result.
\<close>

theorem ipc_send_outcome_witness:
  "- E_IPC_NOT_RECV (mock 7 (\<lambda>i. if i < 2 then - 7 else 0)) <s 0 \<and>
   fst (ipc_send 5 (mock 7 (\<lambda>i. if i < 2 then - 7 else 0)) 1 42 NULL 0 0) = Returned \<and>
   fst (ipc_send 5 (mock 7 (\<lambda>i. if i < 2 then - 7 else - 3)) 1 42 NULL 0 0)
     = Panicked ''IPC send error: %e, env: %d'' [- 3, 1]"
proof -
  let ?a = "\<lambda>i::nat. if i < 2 then - 7 else (0::word32)"
  let ?b = "\<lambda>i::nat. if i < 2 then - 7 else (- 3::word32)"
  have nega: "- E_IPC_NOT_RECV (mock 7 ?a) <s 0" by (simp add: E_mock minus_seven_negative)
  have negb: "- E_IPC_NOT_RECV (mock 7 ?b) <s 0" by (simp add: E_mock minus_seven_negative)
  have "\<exists>N<5. (\<forall>i<N. nth_result (mock 7 ?a) 1 42 NULL 0 0 i = - E_IPC_NOT_RECV (mock 7 ?a)) \<and>
      \<not> nth_result (mock 7 ?a) 1 42 NULL 0 0 N <s 0"
    by (rule exI [of _ 2]) (simp add: nth_result_mock E_mock)
  then have 1: "fst (ipc_send 5 (mock 7 ?a) 1 42 NULL 0 0) = Returned"
    using ipc_send_outcome [OF nega, of 5 1 42 NULL 0 0] by blast
  have "\<exists>N<5. (\<forall>i<N. nth_result (mock 7 ?b) 1 42 NULL 0 0 i = - E_IPC_NOT_RECV (mock 7 ?b)) \<and>
      nth_result (mock 7 ?b) 1 42 NULL 0 0 N <s 0 \<and>
      nth_result (mock 7 ?b) 1 42 NULL 0 0 N \<noteq> - E_IPC_NOT_RECV (mock 7 ?b) \<and>
      ''IPC send error: %e, env: %d'' = ''IPC send error: %e, env: %d'' \<and>
      [- 3, 1] = [nth_result (mock 7 ?b) 1 42 NULL 0 0 N, 1]"
    by (rule exI [of _ 2]) (simp add: nth_result_mock E_mock word_sless_alt)
  then have 2: "fst (ipc_send 5 (mock 7 ?b) 1 42 NULL 0 0)
      = Panicked ''IPC send error: %e, env: %d'' [- 3, 1]"
    using ipc_send_outcome [OF negb, of 5 1 42 NULL 0 0] by blast
  from nega 1 2 show ?thesis by blast
qed

text \<open>
  C9.  Whatever the system calls do and however long the call is followed: the calls
  that \<^verbatim>\<open>ipc_send\<close> has made are a number \<open>n\<close> of pairs, a delivery attempt directly
  followed by one \<^verbatim>\<open>sys_yield\<close>.  So attempts and yields are equal in number at the
  end of every pass; \<open>n\<close> is at least 1 when the call has returned or panicked (the
  final attempt is followed by a yield too), and \<open>n\<close> is the number of passes made
  when the call is still retrying.
\<close>

theorem ipc_send_yield_after_each_attempt:
  "\<exists>n w'. n \<le> fuel \<and>
     snd (ipc_send fuel (traced L) to_env val pg perm (w, [])) =
       (w', concat (replicate n
              [Call_ipc_try_send to_env val (if pg = NULL then 0xffffffff else pg) perm,
               Call_yield])) \<and>
     attempts (snd (snd (ipc_send fuel (traced L) to_env val pg perm (w, [])))) = n \<and>
     yields (snd (snd (ipc_send fuel (traced L) to_env val pg perm (w, [])))) = n \<and>
     (fst (ipc_send fuel (traced L) to_env val pg perm (w, [])) = Retrying \<longrightarrow> n = fuel) \<and>
     (fst (ipc_send fuel (traced L) to_env val pg perm (w, [])) \<noteq> Retrying \<longrightarrow> 1 \<le> n)"
proof -
  obtain n w' where n: "n \<le> fuel"
    and t: "snd (ipc_send fuel (traced L) to_env val pg perm (w, [])) =
       (w', [] @ concat (replicate n (pass_events to_env val pg perm)))"
    and a: "fst (ipc_send fuel (traced L) to_env val pg perm (w, [])) = Retrying \<longrightarrow> n = fuel"
    and b: "fst (ipc_send fuel (traced L) to_env val pg perm (w, [])) \<noteq> Retrying \<longrightarrow> 0 < n"
    using ipc_send_trace [of fuel L to_env val pg perm w "[]"] by blast
  have t': "snd (ipc_send fuel (traced L) to_env val pg perm (w, [])) =
       (w', concat (replicate n (pass_events to_env val pg perm)))"
    using t by simp
  have c: "attempts (snd (snd (ipc_send fuel (traced L) to_env val pg perm (w, [])))) = n"
    by (simp only: t' snd_conv attempts_passes)
  have d: "yields (snd (snd (ipc_send fuel (traced L) to_env val pg perm (w, [])))) = n"
    by (simp only: t' snd_conv yields_passes)
  have e: "fst (ipc_send fuel (traced L) to_env val pg perm (w, [])) \<noteq> Retrying \<longrightarrow> 1 \<le> n"
    using b by auto
  from n t' a c d e show ?thesis
    unfolding pass_events_def by blast
qed

text \<open>
  C9 at concrete inputs: a first attempt that succeeds is still followed by one yield;
  so is a first attempt that fails fatally; and a call that is still retrying after
  two passes has made two attempts and two yields.
\<close>

theorem ipc_send_yield_after_each_attempt_witness:
  "fst (ipc_send 4 (traced (mock 7 (\<lambda>i. 0))) 1 42 NULL 0 (0, [])) \<noteq> Retrying \<and>
   1 \<le> yields (snd (snd (ipc_send 4 (traced (mock 7 (\<lambda>i. 0))) 1 42 NULL 0 (0, [])))) \<and>
   fst (ipc_send 4 (traced (mock 7 (\<lambda>i. - 3))) 1 42 NULL 0 (0, [])) \<noteq> Retrying \<and>
   1 \<le> yields (snd (snd (ipc_send 4 (traced (mock 7 (\<lambda>i. - 3))) 1 42 NULL 0 (0, [])))) \<and>
   fst (ipc_send 2 (traced (mock 7 (\<lambda>i. - 7))) 1 42 NULL 0 (0, [])) = Retrying \<and>
   yields (snd (snd (ipc_send 2 (traced (mock 7 (\<lambda>i. - 7))) 1 42 NULL 0 (0, [])))) = 2 \<and>
   attempts (snd (snd (ipc_send 2 (traced (mock 7 (\<lambda>i. - 7))) 1 42 NULL 0 (0, [])))) = 2"
proof -
  have a: "fst (ipc_send 4 (traced (mock 7 (\<lambda>i. 0))) 1 42 NULL 0 (0, [])) \<noteq> Retrying"
    by (simp add: ipc_send_def ipc_send_loop_numeral ipc_send_body_def traced_def mock_def)
  have b: "fst (ipc_send 4 (traced (mock 7 (\<lambda>i. - 3))) 1 42 NULL 0 (0, [])) \<noteq> Retrying"
    by (simp add: ipc_send_def ipc_send_loop_numeral ipc_send_body_def traced_def mock_def)
  have c: "fst (ipc_send 2 (traced (mock 7 (\<lambda>i. - 7))) 1 42 NULL 0 (0, [])) = Retrying"
    by (simp add: ipc_send_def ipc_send_loop_numeral ipc_send_body_def traced_def mock_def)
  show ?thesis
    using a b c
      ipc_send_yield_after_each_attempt [of 4 "mock 7 (\<lambda>i. 0)" 1 42 NULL 0 0]
      ipc_send_yield_after_each_attempt [of 4 "mock 7 (\<lambda>i. - 3)" 1 42 NULL 0 0]
      ipc_send_yield_after_each_attempt [of 2 "mock 7 (\<lambda>i. - 7)" 1 42 NULL 0 0]
    by auto
qed

subsection \<open>Auxiliary facts about \<^verbatim>\<open>ipc_recv\<close>\<close>

lemma ipc_recv_None:
  "ipc_recv L from_env_store pg perm_store w = None \<longleftrightarrow>
   sys_ipc_recv L (if pg = NULL then 0xffffffff else pg) w = None"
  by (simp add: ipc_recv_def Let_def split: option.splits prod.splits)

lemma sys_ipc_recv_traced:
  "sys_ipc_recv L a w = Some (r, w1) \<Longrightarrow>
   sys_ipc_recv (traced L) a (w, t) = Some (r, (w1, t @ [Call_ipc_recv a]))"
  by (simp add: traced_def)

lemma store32_traced: "store32 (traced L) a v (w, t) = (store32 L a v w, t @ [Store a v])"
  by (simp add: traced_def)

lemma env_traced: "env (traced L) (w, t) = env L w"
  by (simp add: traced_def)

lemma ipc_recv_traced_fail:
  assumes "sys_ipc_recv L (if pg = NULL then 0xffffffff else pg) w = Some (r, w1)" and "r <s 0"
  shows "ipc_recv (traced L) from_env_store pg perm_store (w, t) =
     Some (r,
       ((if perm_store \<noteq> NULL then store32 L perm_store 0 else id)
          ((if from_env_store \<noteq> NULL then store32 L from_env_store 0 else id) w1),
        t @ [Call_ipc_recv (if pg = NULL then 0xffffffff else pg)] @
          (if from_env_store \<noteq> NULL then [Store from_env_store 0] else []) @
          (if perm_store \<noteq> NULL then [Store perm_store 0] else [])))"
  using assms(2) sys_ipc_recv_traced [OF assms(1), of t]
  by (cases "pg = NULL") (simp_all add: ipc_recv_def store32_traced)

lemma ipc_recv_traced_ok:
  assumes "sys_ipc_recv L (if pg = NULL then 0xffffffff else pg) w = Some (r, w1)" and "\<not> r <s 0"
  shows "ipc_recv (traced L) from_env_store pg perm_store (w, t) =
     Some (env_ipc_value (env L
              ((if perm_store \<noteq> NULL
                then store32 L perm_store (env_ipc_perm (env L
                  ((if from_env_store \<noteq> NULL
                    then store32 L from_env_store (env_ipc_from (env L w1)) else id) w1)))
                else id)
               ((if from_env_store \<noteq> NULL
                 then store32 L from_env_store (env_ipc_from (env L w1)) else id) w1))),
       ((if perm_store \<noteq> NULL
                then store32 L perm_store (env_ipc_perm (env L
                  ((if from_env_store \<noteq> NULL
                    then store32 L from_env_store (env_ipc_from (env L w1)) else id) w1)))
                else id)
               ((if from_env_store \<noteq> NULL
                 then store32 L from_env_store (env_ipc_from (env L w1)) else id) w1),
        t @ [Call_ipc_recv (if pg = NULL then 0xffffffff else pg)] @
          (if from_env_store \<noteq> NULL
           then [Store from_env_store (env_ipc_from (env L w1))] else []) @
          (if perm_store \<noteq> NULL
           then [Store perm_store (env_ipc_perm (env L
                  ((if from_env_store \<noteq> NULL
                    then store32 L from_env_store (env_ipc_from (env L w1)) else id) w1)))]
           else [])))"
  using assms(2) sys_ipc_recv_traced [OF assms(1), of t]
  by (cases "pg = NULL") (simp_all add: ipc_recv_def store32_traced env_traced)

lemma ipc_recv_traced_shape:
  assumes "ipc_recv (traced L) from_env_store pg perm_store (w, t0) = Some (r, (w', t))"
  shows "\<exists>x y. t = t0 @ [Call_ipc_recv (if pg = NULL then 0xffffffff else pg)] @
           (if from_env_store \<noteq> NULL then [Store from_env_store x] else []) @
           (if perm_store \<noteq> NULL then [Store perm_store y] else [])"
proof (cases "sys_ipc_recv L (if pg = NULL then 0xffffffff else pg) w")
  case None
  then have "sys_ipc_recv (traced L) (if pg = NULL then 0xffffffff else pg) (w, t0) = None"
    by (simp add: traced_def)
  then have "ipc_recv (traced L) from_env_store pg perm_store (w, t0) = None"
    by (simp only: ipc_recv_None)
  with assms show ?thesis by simp
next
  case (Some a)
  obtain r1 w1 where call: "sys_ipc_recv L (if pg = NULL then 0xffffffff else pg) w = Some (r1, w1)"
    using Some by (cases a) simp
  show ?thesis
  proof (cases "r1 <s 0")
    case True
    from assms [unfolded ipc_recv_traced_fail [OF call True]] show ?thesis by blast
  next
    case False
    from assms [unfolded ipc_recv_traced_ok [OF call False]] show ?thesis by blast
  qed
qed

lemma set_concat_replicate: "set (concat (replicate n xs)) \<subseteq> set xs"
  by (induction n) auto

lemma in_concat_replicate: "0 < n \<Longrightarrow> x \<in> set xs \<Longrightarrow> x \<in> set (concat (replicate n xs))"
  by (cases n) auto

lemma ipc_recv_generic:
  assumes ro: "\<forall>a v s. env L (store32 L a v s) = env L s"
  shows "ipc_recv (traced L) from_env_store pg perm_store (w, []) =
     (case sys_ipc_recv L (if pg = NULL then 0xffffffff else pg) w of
        None \<Rightarrow> None
      | Some (r, w1) \<Rightarrow>
          if r <s 0 then
            Some (r,
              ((if perm_store \<noteq> NULL then store32 L perm_store 0 else id)
                 ((if from_env_store \<noteq> NULL then store32 L from_env_store 0 else id) w1),
               [Call_ipc_recv (if pg = NULL then 0xffffffff else pg)] @
               (if from_env_store \<noteq> NULL then [Store from_env_store 0] else []) @
               (if perm_store \<noteq> NULL then [Store perm_store 0] else [])))
          else
            Some (env_ipc_value (env L w1),
              ((if perm_store \<noteq> NULL
                then store32 L perm_store (env_ipc_perm (env L w1)) else id)
                 ((if from_env_store \<noteq> NULL
                   then store32 L from_env_store (env_ipc_from (env L w1)) else id) w1),
               [Call_ipc_recv (if pg = NULL then 0xffffffff else pg)] @
               (if from_env_store \<noteq> NULL
                then [Store from_env_store (env_ipc_from (env L w1))] else []) @
               (if perm_store \<noteq> NULL
                then [Store perm_store (env_ipc_perm (env L w1))] else []))))"
proof (cases "sys_ipc_recv L (if pg = NULL then 0xffffffff else pg) w")
  case None
  then have "sys_ipc_recv (traced L) (if pg = NULL then 0xffffffff else pg) (w, []) = None"
    by (simp add: traced_def)
  then have "ipc_recv (traced L) from_env_store pg perm_store (w, []) = None"
    by (simp only: ipc_recv_None)
  with None show ?thesis by simp
next
  case (Some a)
  obtain r w1 where a: "a = (r, w1)" by (cases a)
  have call: "sys_ipc_recv L (if pg = NULL then 0xffffffff else pg) w = Some (r, w1)"
    using Some a by simp
  have env1: "env L ((if from_env_store \<noteq> NULL then store32 L from_env_store x else id) w1)
      = env L w1" for x
    using ro by simp
  have env2: "env L ((if perm_store \<noteq> NULL then store32 L perm_store y else id)
      ((if from_env_store \<noteq> NULL then store32 L from_env_store x else id) w1)) = env L w1" for x y
    using ro by simp
  show ?thesis
  proof (cases "r <s 0")
    case True
    show ?thesis
      unfolding call ipc_recv_traced_fail [OF call True] using True by simp
  next
    case False
    show ?thesis
      unfolding call ipc_recv_traced_ok [OF call False] env1 env2 using False by simp
  qed
qed

subsection \<open>What \<^verbatim>\<open>ipc_recv\<close> stores, and the arguments of the system calls\<close>

text \<open>
  C10.  Whenever a call of \<^verbatim>\<open>ipc_recv\<close> returns, the stores it has made are, in order:
  one store through \<^verbatim>\<open>from_env_store\<close> if that pointer is not null, and one store
  through \<^verbatim>\<open>perm_store\<close> if that pointer is not null, and nothing else; on the failure
  path as on the success path, and for each of the four combinations of null and
  non-null pointers.  In particular there is no store through the null pointer.
  (The source reads through neither pointer.)
\<close>

theorem ipc_recv_stores:
  assumes "ipc_recv (traced L) from_env_store pg perm_store (w, []) = Some (r, (w', t))"
  shows "(\<exists>x y. filter is_store t =
            (if from_env_store \<noteq> NULL then [Store from_env_store x] else []) @
            (if perm_store \<noteq> NULL then [Store perm_store y] else [])) \<and>
         (\<forall>v. Store NULL v \<notin> set t)"
proof -
  obtain x y where t: "t = [] @ [Call_ipc_recv (if pg = NULL then 0xffffffff else pg)] @
           (if from_env_store \<noteq> NULL then [Store from_env_store x] else []) @
           (if perm_store \<noteq> NULL then [Store perm_store y] else [])"
    using ipc_recv_traced_shape [OF assms] by blast
  have 1: "filter is_store t =
            (if from_env_store \<noteq> NULL then [Store from_env_store x] else []) @
            (if perm_store \<noteq> NULL then [Store perm_store y] else [])"
    unfolding t by simp
  have 2: "\<forall>v. Store NULL v \<notin> set t"
    unfolding t by simp
  from 1 2 show ?thesis by blast
qed

text \<open>
  C10 at a concrete input: \<^verbatim>\<open>from_env_store\<close> null, \<^verbatim>\<open>perm_store\<close> not null.
\<close>

theorem ipc_recv_stores_witness:
  "ipc_recv (traced (mock_recv 0 \<lparr>env_ipc_from = 9, env_ipc_perm = 5, env_ipc_value = 42\<rparr>))
      NULL NULL 0x2000 (\<lambda>a. 1, [])
     = Some (42, ((\<lambda>a. 1)(0x2000 := 5), [Call_ipc_recv 0xffffffff, Store 0x2000 5])) \<and>
   filter is_store [Call_ipc_recv 0xffffffff, Store 0x2000 5] = [Store 0x2000 5] \<and>
   Store NULL 5 \<notin> set [Call_ipc_recv 0xffffffff, Store 0x2000 5]"
proof -
  have h: "ipc_recv (traced (mock_recv 0 \<lparr>env_ipc_from = 9, env_ipc_perm = 5, env_ipc_value = 42\<rparr>))
      NULL NULL 0x2000 (\<lambda>a. 1, [])
     = Some (42, ((\<lambda>a. 1)(0x2000 := 5), [Call_ipc_recv 0xffffffff, Store 0x2000 5]))"
    by (simp add: ipc_recv_def traced_def mock_recv_def)
  show ?thesis
    using h ipc_recv_stores [OF h] by simp
qed

text \<open>
  C8.  \<^verbatim>\<open>ipc_recv\<close> calls \<^verbatim>\<open>sys_ipc_recv\<close> with the address \<^verbatim>\<open>0xffffffff\<close> when \<^verbatim>\<open>pg\<close> is
  null and with \<^verbatim>\<open>pg\<close> itself otherwise: that call is the first event of every call
  that returns, everything after it is a store, and the call fails to return exactly
  when \<^verbatim>\<open>sys_ipc_recv\<close> with that argument never resumes the caller.  Every delivery
  attempt of \<^verbatim>\<open>ipc_send\<close> calls \<^verbatim>\<open>sys_ipc_try_send\<close> with the caller's \<^verbatim>\<open>to_env\<close>, \<^verbatim>\<open>val\<close>
  and \<^verbatim>\<open>perm\<close> unchanged and with the page argument \<^verbatim>\<open>0xffffffff\<close> when \<^verbatim>\<open>pg\<close> is null
  and \<^verbatim>\<open>pg\<close> itself otherwise; at least one such call is made as soon as one pass of
  the loop has run.
\<close>

theorem no_page_sentinel:
  "(\<forall>r w' t. ipc_recv (traced L) from_env_store pg perm_store (w, []) = Some (r, (w', t)) \<longrightarrow>
       (\<exists>stores. t = Call_ipc_recv (if pg = NULL then 0xffffffff else pg) # stores \<and>
                 (\<forall>e\<in>set stores. is_store e))) \<and>
   (ipc_recv L from_env_store pg perm_store w = None \<longleftrightarrow>
      sys_ipc_recv L (if pg = NULL then 0xffffffff else pg) w = None) \<and>
   (\<forall>e\<in>set (snd (snd (ipc_send fuel (traced L) to_env val pg perm (w, [])))).
       e = Call_ipc_try_send to_env val (if pg = NULL then 0xffffffff else pg) perm \<or>
       e = Call_yield) \<and>
   (0 < fuel \<longrightarrow>
      Call_ipc_try_send to_env val (if pg = NULL then 0xffffffff else pg) perm
        \<in> set (snd (snd (ipc_send fuel (traced L) to_env val pg perm (w, [])))))"
proof -
  have 1: "\<exists>stores. t = Call_ipc_recv (if pg = NULL then 0xffffffff else pg) # stores \<and>
                 (\<forall>e\<in>set stores. is_store e)"
    if h: "ipc_recv (traced L) from_env_store pg perm_store (w, []) = Some (r, (w', t))" for r w' t
  proof -
    obtain x y where t: "t = [] @ [Call_ipc_recv (if pg = NULL then 0xffffffff else pg)] @
           (if from_env_store \<noteq> NULL then [Store from_env_store x] else []) @
           (if perm_store \<noteq> NULL then [Store perm_store y] else [])"
      using ipc_recv_traced_shape [OF h] by blast
    show ?thesis unfolding t by auto
  qed
  obtain n w' where n: "n \<le> fuel"
    and t: "snd (ipc_send fuel (traced L) to_env val pg perm (w, [])) =
       (w', [] @ concat (replicate n (pass_events to_env val pg perm)))"
    and a: "fst (ipc_send fuel (traced L) to_env val pg perm (w, [])) = Retrying \<longrightarrow> n = fuel"
    and b: "fst (ipc_send fuel (traced L) to_env val pg perm (w, [])) \<noteq> Retrying \<longrightarrow> 0 < n"
    using ipc_send_trace [of fuel L to_env val pg perm w "[]"] by blast
  have t': "snd (snd (ipc_send fuel (traced L) to_env val pg perm (w, []))) =
       concat (replicate n (pass_events to_env val pg perm))"
    using t by simp
  have 3: "\<forall>e\<in>set (snd (snd (ipc_send fuel (traced L) to_env val pg perm (w, [])))).
       e = Call_ipc_try_send to_env val (if pg = NULL then 0xffffffff else pg) perm \<or>
       e = Call_yield"
    unfolding t' using set_concat_replicate [of n "pass_events to_env val pg perm"]
    by (auto simp: pass_events_def)
  have 4: "Call_ipc_try_send to_env val (if pg = NULL then 0xffffffff else pg) perm
        \<in> set (snd (snd (ipc_send fuel (traced L) to_env val pg perm (w, []))))" if "0 < fuel"
  proof -
    have "0 < n" using a b that by auto
    then show ?thesis
      unfolding t' by (rule in_concat_replicate) (simp add: pass_events_def)
  qed
  from 1 3 4 ipc_recv_None [of L from_env_store pg perm_store w] show ?thesis by blast
qed

text \<open>
  C8 at concrete inputs: a null \<^verbatim>\<open>pg\<close> reaches both system calls as \<^verbatim>\<open>0xffffffff\<close>, a
  non-null \<^verbatim>\<open>pg\<close> reaches \<^verbatim>\<open>sys_ipc_try_send\<close> as it is, and \<^verbatim>\<open>perm = 3\<close> is forwarded.
\<close>

theorem no_page_sentinel_witness:
  "ipc_recv (traced (mock_recv 0 \<lparr>env_ipc_from = 9, env_ipc_perm = 5, env_ipc_value = 42\<rparr>))
      NULL NULL 0x2000 (\<lambda>a. 1, [])
     = Some (42, ((\<lambda>a. 1)(0x2000 := 5), [Call_ipc_recv 0xffffffff, Store 0x2000 5])) \<and>
   (0::nat) < 2 \<and>
   Call_ipc_try_send 1 42 0xffffffff 3 \<in> set (snd (snd
     (ipc_send 2 (traced (mock_recv 0 \<lparr>env_ipc_from = 9, env_ipc_perm = 5, env_ipc_value = 42\<rparr>))
        1 42 NULL 3 (\<lambda>a. 1, [])))) \<and>
   Call_ipc_try_send 1 42 0x800000 3 \<in> set (snd (snd
     (ipc_send 2 (traced (mock_recv 0 \<lparr>env_ipc_from = 9, env_ipc_perm = 5, env_ipc_value = 42\<rparr>))
        1 42 0x800000 3 (\<lambda>a. 1, []))))"
proof -
  have h: "ipc_recv (traced (mock_recv 0 \<lparr>env_ipc_from = 9, env_ipc_perm = 5, env_ipc_value = 42\<rparr>))
      NULL NULL 0x2000 (\<lambda>a. 1, [])
     = Some (42, ((\<lambda>a. 1)(0x2000 := 5), [Call_ipc_recv 0xffffffff, Store 0x2000 5]))"
    by (simp add: ipc_recv_def traced_def mock_recv_def)
  have f: "(0::nat) < 2" by simp
  show ?thesis
    using h f
      no_page_sentinel [of "mock_recv 0 \<lparr>env_ipc_from = 9, env_ipc_perm = 5, env_ipc_value = 42\<rparr>"
        NULL NULL "0x2000" "\<lambda>a. 1" 2 1 42 3]
      no_page_sentinel [of "mock_recv 0 \<lparr>env_ipc_from = 9, env_ipc_perm = 5, env_ipc_value = 42\<rparr>"
        NULL "0x800000" "0x2000" "\<lambda>a. 1" 2 1 42 3]
    by simp
qed

section \<open>The library against the modelled kernel\<close>

subsection \<open>Auxiliary facts\<close>

lemma tryDeliver_no_page:
  assumes "procs k q = Some mb" "mb_receiving mb" "pageOrNone = None \<or> mb_destAddress mb = None"
  shows "tryDeliver g p q v pageOrNone perm k =
     (Success, k\<lparr> procs := (procs k)(q \<mapsto>
        mb\<lparr> mb_receiving := False, mb_fromId := p, mb_value := v, mb_perm := 0 \<rparr>) \<rparr>)"
  using assms by (auto simp: tryDeliver_def split: option.splits)

lemma ipc_send_first_success:
  assumes "fst (ipc_send_body L to_env val pg perm w) = 0" "E_IPC_NOT_RECV L \<noteq> 0"
  shows "ipc_send (Suc n) L to_env val pg perm w = (Returned, ipc_send_pass L to_env val pg perm w)"
  using assms by (simp add: ipc_send_def loop_Suc del: ipc_send_loop.simps)

lemma page_or_none_sentinel: "page_or_none 0xffffffff = None"
  by (simp add: page_or_none_def)

lemma postReceive_None:
  "postReceive vd q None k =
     (Posted, k\<lparr> procs := (procs k)(q \<mapsto>
        \<lparr> mb_receiving = True, mb_fromId = 0, mb_value = 0,
          mb_destAddress = None, mb_perm = 0 \<rparr>) \<rparr>)"
  by (simp add: postReceive_def)

lemma sender_runs_posted:
  assumes nz: "E_not_recv C \<noteq> 0" and fuel: "0 < fuel"
  shows "ipc_send fuel (klib C p (\<lambda>k. k) sched) q v pg perm
           \<lparr> kern = snd (postReceive vd q None k0), umem = m \<rparr> =
         (Returned, \<lparr> kern = sched (delivered p q v k0), umem = m \<rparr>)"
proof -
  obtain n where n: "fuel = Suc n" using fuel by (cases fuel) auto
  let ?L = "klib C p (\<lambda>k. k) sched"
  let ?k1 = "snd (postReceive vd q None k0)"
  let ?mb = "\<lparr> mb_receiving = True, mb_fromId = 0, mb_value = 0,
          mb_destAddress = None, mb_perm = 0 \<rparr>"
  have p1: "procs ?k1 q = Some ?mb" by (simp add: postReceive_None)
  have td: "tryDeliver (grant C) p q v pon perm ?k1 = (Success, delivered p q v k0)" for pon
    unfolding tryDeliver_no_page [OF p1, of pon "grant C" p v perm, simplified]
    by (simp add: postReceive_None delivered_def)
  have body: "ipc_send_body ?L q v pg perm \<lparr> kern = ?k1, umem = m \<rparr> =
      (0, \<lparr> kern = sched (delivered p q v k0), umem = m \<rparr>)"
    by (simp add: ipc_send_body_def klib_def td)
  have E: "E_IPC_NOT_RECV ?L \<noteq> 0" using nz by (simp add: klib_def)
  show ?thesis
    unfolding n using ipc_send_first_success [of ?L q v pg perm _ n] body E
    by (simp add: ipc_send_pass_def)
qed

lemma recv_after_delivery:
  assumes nz: "E_not_recv C \<noteq> 0" and fuel: "0 < fuel"
    and pres: "\<forall>k. procs (sched k) q = procs k q"
  shows "sys_ipc_recv (klib C q (sender_runs fuel C p sched q v pg perm mP) schedQ) 0xffffffff
           \<lparr> kern = k0, umem = m \<rparr> =
         Some (0, \<lparr> kern = sched (delivered p q v k0), umem = m \<rparr>)"
proof -
  have run: "sender_runs fuel C p sched q v pg perm mP (snd (postReceive (valid_dest C) q None k0))
      = sched (delivered p q v k0)"
    unfolding sender_runs_def sender_runs_posted [OF nz fuel] by simp
  have pq: "procs (sched (delivered p q v k0)) q =
      Some \<lparr> mb_receiving = False, mb_fromId = p, mb_value = v,
          mb_destAddress = None, mb_perm = 0 \<rparr>"
    using pres by (simp add: delivered_def)
  have post: "postReceive (valid_dest C) q None k0 =
      (Posted, snd (postReceive (valid_dest C) q None k0))"
    by (simp add: postReceive_None)
  show ?thesis
    apply (simp only: klib_def lib.simps page_or_none_sentinel uworld.simps)
    apply (subst post)
    apply (simp only: prod.case post_result.case run pq option.case mailbox.simps if_False)
    done
qed

lemma env_after_delivery:
  assumes pres: "\<forall>k. procs (sched k) q = procs k q"
  shows "env (klib C q during schedQ) \<lparr> kern = sched (delivered p q v k0), umem = m' \<rparr> =
     \<lparr> env_ipc_from = p, env_ipc_perm = 0, env_ipc_value = v \<rparr>"
  using pres by (simp add: klib_def delivered_def)

lemma store32_klib:
  "store32 (klib C q during schedQ) a x \<lparr> kern = k, umem = m \<rparr> = \<lparr> kern = k, umem = m(a := x) \<rparr>"
  by (simp add: klib_def)

lemma ipc_recv_traced_after_delivery:
  assumes nz: "E_not_recv C \<noteq> 0" and fuel: "0 < fuel"
    and pres: "\<forall>k. procs (sched k) q = procs k q"
  shows "ipc_recv (traced (klib C q (sender_runs fuel C p sched q v pg perm mP) schedQ))
            from_env_store NULL perm_store (\<lparr> kern = k0, umem = m \<rparr>, []) =
         Some (v,
           (\<lparr> kern = sched (delivered p q v k0),
              umem = (if perm_store \<noteq> NULL then (\<lambda>f. f(perm_store := 0)) else id)
                      ((if from_env_store \<noteq> NULL then (\<lambda>f. f(from_env_store := p)) else id) m) \<rparr>,
            [Call_ipc_recv 0xffffffff] @
            (if from_env_store \<noteq> NULL then [Store from_env_store p] else []) @
            (if perm_store \<noteq> NULL then [Store perm_store 0] else [])))"
proof -
  let ?L = "klib C q (sender_runs fuel C p sched q v pg perm mP) schedQ"
  have call: "sys_ipc_recv ?L (if (NULL::addr) = NULL then 0xffffffff else NULL)
      \<lparr> kern = k0, umem = m \<rparr> = Some (0, \<lparr> kern = sched (delivered p q v k0), umem = m \<rparr>)"
    using recv_after_delivery [OF nz fuel pres] by simp
  have ok: "\<not> (0::word32) <s 0" by simp
  show ?thesis
    unfolding ipc_recv_traced_ok [OF call ok]
    by (simp add: env_after_delivery [OF pres] store32_klib)
qed

lemma postReceive_posted:
  assumes "\<forall>dest. d = Some dest \<longrightarrow> vd dest"
  shows "postReceive vd q d k = (Posted, posted q d k)"
  using assms by (cases d) (simp_all add: postReceive_def posted_def)

lemma postReceive_invalid:
  assumes "d = Some dest" "\<not> vd dest"
  shows "postReceive vd q d k = (ValidationError, k)"
  using assms by (simp add: postReceive_def)

lemma tryDeliver_posted_no_page:
  assumes "sp = None \<or> d = None"
  shows "tryDeliver g p q v sp sperm (posted q d k) =
     (Success, after_delivery p q v d 0 (mappings k) k)"
  using assms
  by (auto simp: tryDeliver_def posted_def after_delivery_def split: option.splits)

lemma tryDeliver_posted_granted:
  assumes "sp = Some page" "d = Some dest" "g (mappings k) p page q dest sperm = Some m'"
  shows "tryDeliver g p q v sp sperm (posted q d k) =
     (Success, after_delivery p q v d sperm m' k)"
  using assms
  by (simp add: tryDeliver_def posted_def after_delivery_def)

lemma tryDeliver_posted_refused:
  assumes "sp = Some page" "d = Some dest" "g (mappings k) p page q dest sperm = None"
  shows "tryDeliver g p q v sp sperm (posted q d k) = (OtherError, posted q d k)"
  using assms
  by (simp add: tryDeliver_def posted_def)

lemma body_klib:
  "ipc_send_body (klib C p dur sched) q v spg sperm \<lparr> kern = k, umem = m \<rparr> =
     (case tryDeliver (grant C) p q v
             (page_or_none (if spg = NULL then 0xffffffff else spg)) sperm k of
        (Success, k') \<Rightarrow> (0, \<lparr> kern = sched k', umem = m \<rparr>)
      | (NotReceiving, k') \<Rightarrow> (- E_not_recv C, \<lparr> kern = sched k', umem = m \<rparr>)
      | (OtherError, k') \<Rightarrow> (- E_other C, \<lparr> kern = sched k', umem = m \<rparr>))"
  by (simp add: ipc_send_body_def klib_def split: prod.splits deliver_result.splits)

lemma ipc_send_first_exit:
  assumes "fst (ipc_send_body L to_env val pg perm w) \<noteq> - E_IPC_NOT_RECV L"
  shows "snd (ipc_send (Suc n) L to_env val pg perm w) = ipc_send_pass L to_env val pg perm w"
  using assms by (simp add: ipc_send_snd loop_Suc del: ipc_send_loop.simps)

lemma E_klib: "E_IPC_NOT_RECV (klib C p dur sched) = E_not_recv C"
  by (simp add: klib_def)

lemma sender_runs_success:
  assumes nz: "E_not_recv C \<noteq> 0" and fuel: "0 < fuel"
    and td: "tryDeliver (grant C) p q v
               (page_or_none (if spg = NULL then 0xffffffff else spg)) sperm k = (Success, k')"
  shows "sender_runs fuel C p sched q v spg sperm mP k = sched k'"
proof -
  obtain n where n: "fuel = Suc n" using fuel by (cases fuel) auto
  have b: "ipc_send_body (klib C p (\<lambda>k. k) sched) q v spg sperm \<lparr> kern = k, umem = mP \<rparr> =
      (0, \<lparr> kern = sched k', umem = mP \<rparr>)"
    by (simp add: body_klib td)
  have "fst (ipc_send_body (klib C p (\<lambda>k. k) sched) q v spg sperm \<lparr> kern = k, umem = mP \<rparr>)
      \<noteq> - E_IPC_NOT_RECV (klib C p (\<lambda>k. k) sched)"
    using nz by (simp add: b E_klib)
  from ipc_send_first_exit [OF this, of n] show ?thesis
    by (simp add: sender_runs_def n ipc_send_pass_def b)
qed

lemma sender_runs_refused:
  assumes ne: "E_other C \<noteq> E_not_recv C" and fuel: "0 < fuel"
    and td: "tryDeliver (grant C) p q v
               (page_or_none (if spg = NULL then 0xffffffff else spg)) sperm k = (OtherError, k')"
  shows "sender_runs fuel C p sched q v spg sperm mP k = sched k'"
proof -
  obtain n where n: "fuel = Suc n" using fuel by (cases fuel) auto
  have b: "ipc_send_body (klib C p (\<lambda>k. k) sched) q v spg sperm \<lparr> kern = k, umem = mP \<rparr> =
      (- E_other C, \<lparr> kern = sched k', umem = mP \<rparr>)"
    by (simp add: body_klib td)
  have "fst (ipc_send_body (klib C p (\<lambda>k. k) sched) q v spg sperm \<lparr> kern = k, umem = mP \<rparr>)
      \<noteq> - E_IPC_NOT_RECV (klib C p (\<lambda>k. k) sched)"
    using ne by (simp add: b E_klib)
  from ipc_send_first_exit [OF this, of n] show ?thesis
    by (simp add: sender_runs_def n ipc_send_pass_def b)
qed

lemma sys_ipc_recv_klib_invalid:
  assumes "page_or_none a = Some dest" "\<not> valid_dest C dest"
  shows "sys_ipc_recv (klib C q dur schedQ) a \<lparr> kern = k0, umem = m \<rparr> =
     Some (- E_validation C, \<lparr> kern = k0, umem = m \<rparr>)"
  by (simp add: klib_def postReceive_invalid [where vd = "valid_dest C", OF assms])

lemma sys_ipc_recv_klib_posted:
  assumes "\<forall>dest. page_or_none a = Some dest \<longrightarrow> valid_dest C dest"
  shows "sys_ipc_recv (klib C q dur schedQ) a \<lparr> kern = k0, umem = m \<rparr> =
     (case procs (dur (posted q (page_or_none a) k0)) q of
        None \<Rightarrow> None
      | Some mb \<Rightarrow>
          if mb_receiving mb then None
          else Some (0, \<lparr> kern = dur (posted q (page_or_none a) k0), umem = m \<rparr>))"
  by (simp add: klib_def postReceive_posted [where vd = "valid_dest C", OF assms]
        split: option.splits)

lemma env_klib:
  assumes "procs k q = Some mb"
  shows "env (klib C q dur schedQ) \<lparr> kern = k, umem = m \<rparr> =
     \<lparr> env_ipc_from = mb_fromId mb, env_ipc_perm = mb_perm mb, env_ipc_value = mb_value mb \<rparr>"
  using assms by (simp add: klib_def)

lemma procs_after_delivery:
  "procs (after_delivery p q v d perm maps k) q =
     Some \<lparr> mb_receiving = False, mb_fromId = p, mb_value = v,
            mb_destAddress = d, mb_perm = perm \<rparr>"
  by (simp add: after_delivery_def)

lemma procs_posted:
  "procs (posted q d k) q =
     Some \<lparr> mb_receiving = True, mb_fromId = 0, mb_value = 0,
            mb_destAddress = d, mb_perm = 0 \<rparr>"
  by (simp add: posted_def)

lemma mappings_posted: "mappings (posted q d k) = mappings k"
  by (simp add: posted_def)

lemma ipc_recv_klib_invalid:
  assumes d: "page_or_none (if pg = NULL then 0xffffffff else pg) = Some dest"
    and inv: "\<not> valid_dest C dest" and negv: "- E_validation C <s 0"
  shows "ipc_recv (traced (klib C q dur schedQ)) from_env_store pg perm_store
           (\<lparr> kern = k0, umem = m \<rparr>, []) =
         Some (- E_validation C,
           ((if perm_store \<noteq> NULL then store32 (klib C q dur schedQ) perm_store 0 else id)
              ((if from_env_store \<noteq> NULL then store32 (klib C q dur schedQ) from_env_store 0
                else id) \<lparr> kern = k0, umem = m \<rparr>),
            [] @ [Call_ipc_recv (if pg = NULL then 0xffffffff else pg)] @
            (if from_env_store \<noteq> NULL then [Store from_env_store 0] else []) @
            (if perm_store \<noteq> NULL then [Store perm_store 0] else [])))"
  by (rule ipc_recv_traced_fail [OF sys_ipc_recv_klib_invalid [OF d inv] negv])

lemma ipc_recv_klib_delivered:
  assumes valid: "\<forall>dest. page_or_none (if pg = NULL then 0xffffffff else pg) = Some dest
                    \<longrightarrow> valid_dest C dest"
    and dur: "dur (posted q (page_or_none (if pg = NULL then 0xffffffff else pg)) k0) =
                sched (after_delivery p q v d pm maps k0)"
    and pres: "\<forall>k. procs (sched k) q = procs k q"
  shows "\<exists>w'. ipc_recv (traced (klib C q dur schedQ)) from_env_store pg perm_store
           (\<lparr> kern = k0, umem = m \<rparr>, []) =
         Some (v, (w',
            [Call_ipc_recv (if pg = NULL then 0xffffffff else pg)] @
            (if from_env_store \<noteq> NULL then [Store from_env_store p] else []) @
            (if perm_store \<noteq> NULL then [Store perm_store pm] else [])))"
proof -
  let ?L = "klib C q dur schedQ"
  let ?k2 = "sched (after_delivery p q v d pm maps k0)"
  let ?mb = "\<lparr> mb_receiving = False, mb_fromId = p, mb_value = v,
            mb_destAddress = d, mb_perm = pm \<rparr>"
  have pq: "procs ?k2 q = Some ?mb"
    using pres by (simp add: procs_after_delivery)
  have call: "sys_ipc_recv ?L (if pg = NULL then 0xffffffff else pg) \<lparr> kern = k0, umem = m \<rparr>
      = Some (0, \<lparr> kern = ?k2, umem = m \<rparr>)"
    unfolding sys_ipc_recv_klib_posted [OF valid] dur pq by simp
  have ok: "\<not> (0::word32) <s 0" by simp
  have e: "env ?L \<lparr> kern = ?k2, umem = m' \<rparr> =
      \<lparr> env_ipc_from = p, env_ipc_perm = pm, env_ipc_value = v \<rparr>" for m'
    using env_klib [OF pq] by simp
  show ?thesis
    unfolding ipc_recv_traced_ok [OF call ok]
    by (simp add: e store32_klib)
qed

lemma ipc_recv_klib_refused:
  assumes valid: "\<forall>dest. page_or_none (if pg = NULL then 0xffffffff else pg) = Some dest
                    \<longrightarrow> valid_dest C dest"
    and dur: "dur (posted q (page_or_none (if pg = NULL then 0xffffffff else pg)) k0) =
                sched (posted q (page_or_none (if pg = NULL then 0xffffffff else pg)) k0)"
    and pres: "\<forall>k. procs (sched k) q = procs k q"
  shows "ipc_recv (traced (klib C q dur schedQ)) from_env_store pg perm_store
           (\<lparr> kern = k0, umem = m \<rparr>, t0) = None"
proof -
  let ?L = "klib C q dur schedQ"
  let ?d = "page_or_none (if pg = NULL then 0xffffffff else pg)"
  have pq: "procs (sched (posted q ?d k0)) q =
      Some \<lparr> mb_receiving = True, mb_fromId = 0, mb_value = 0,
            mb_destAddress = ?d, mb_perm = 0 \<rparr>"
    using pres by (simp add: procs_posted)
  have call: "sys_ipc_recv ?L (if pg = NULL then 0xffffffff else pg) \<lparr> kern = k0, umem = m \<rparr>
      = None"
    unfolding sys_ipc_recv_klib_posted [OF valid] dur pq by simp
  then have "sys_ipc_recv (traced ?L) (if pg = NULL then 0xffffffff else pg)
      (\<lparr> kern = k0, umem = m \<rparr>, t0) = None"
    by (simp add: traced_def)
  then show ?thesis by (simp only: ipc_recv_None)
qed

lemma recv_no_transfer:
  assumes nz: "E_not_recv C \<noteq> 0" and ne: "E_other C \<noteq> E_not_recv C"
    and negv: "- E_validation C <s 0" and fuel: "0 < fuel"
    and pres: "\<forall>k. procs (sched k) Q = procs k Q"
    and nt: "page_transfer C k0 P spg sperm Q pg = None"
    and res: "ipc_recv (traced (klib C Q (sender_runs fuel C P sched Q v spg sperm mP) schedQ))
            from_env_store pg perm_store (\<lparr> kern = k0, umem = m \<rparr>, []) = Some (r, (w', t))"
  shows "\<exists>x. t = [Call_ipc_recv (if pg = NULL then 0xffffffff else pg)] @
            (if from_env_store \<noteq> NULL then [Store from_env_store x] else []) @
            (if perm_store \<noteq> NULL then [Store perm_store 0] else [])"
proof -
  let ?d = "page_or_none (if pg = NULL then 0xffffffff else pg)"
  let ?sp = "page_or_none (if spg = NULL then 0xffffffff else spg)"
  let ?dur = "sender_runs fuel C P sched Q v spg sperm mP"
  show ?thesis
  proof (cases "\<forall>dest. ?d = Some dest \<longrightarrow> valid_dest C dest")
    case False
    then obtain dest where d: "?d = Some dest" and inv: "\<not> valid_dest C dest" by blast
    from res [unfolded ipc_recv_klib_invalid [OF d inv negv]] show ?thesis by auto
  next
    case valid: True
    show ?thesis
    proof (cases "?sp = None \<or> ?d = None")
      case True
      have "?dur (posted Q ?d k0) = sched (after_delivery P Q v ?d 0 (mappings k0) k0)"
        by (rule sender_runs_success [OF nz fuel tryDeliver_posted_no_page [OF True]])
      from ipc_recv_klib_delivered [where dur = ?dur and sched = sched, OF valid this pres,
          of schedQ from_env_store perm_store m] res
      show ?thesis by auto
    next
      case False
      then obtain page dest where sp: "?sp = Some page" and d: "?d = Some dest" by auto
      from valid d have vd: "valid_dest C dest" by simp
      from nt sp d vd have g: "grant C (mappings k0) P page Q dest sperm = None"
        by (simp add: page_transfer_def)
      have "?dur (posted Q ?d k0) = sched (posted Q ?d k0)"
        by (rule sender_runs_refused [OF ne fuel tryDeliver_posted_refused [OF sp d]])
           (simp add: mappings_posted g)
      from ipc_recv_klib_refused [where dur = ?dur and sched = sched, OF valid this pres,
          of schedQ from_env_store perm_store m "[]"] res
      show ?thesis by simp
    qed
  qed
qed

lemma recv_transfer:
  assumes nz: "E_not_recv C \<noteq> 0" and fuel: "0 < fuel"
    and pres: "\<forall>k. procs (sched k) Q = procs k Q"
    and tr: "page_transfer C k0 P spg sperm Q pg = Some maps"
  shows "\<exists>w'. ipc_recv (traced (klib C Q (sender_runs fuel C P sched Q v spg sperm mP) schedQ))
            from_env_store pg perm_store (\<lparr> kern = k0, umem = m \<rparr>, []) =
         Some (v, (w',
            [Call_ipc_recv pg] @
            (if from_env_store \<noteq> NULL then [Store from_env_store P] else []) @
            (if perm_store \<noteq> NULL then [Store perm_store sperm] else [])))"
proof -
  let ?d = "page_or_none (if pg = NULL then 0xffffffff else pg)"
  let ?sp = "page_or_none (if spg = NULL then 0xffffffff else spg)"
  let ?dur = "sender_runs fuel C P sched Q v spg sperm mP"
  from tr obtain page dest where sp: "?sp = Some page" and d: "?d = Some dest"
    and vd: "valid_dest C dest" and g: "grant C (mappings k0) P page Q dest sperm = Some maps"
    by (auto simp: page_transfer_def split: option.splits if_splits)
  from d have pg: "(if pg = NULL then 0xffffffff else pg) = pg"
    by (auto simp: page_or_none_def split: if_splits)
  have valid: "\<forall>dest. ?d = Some dest \<longrightarrow> valid_dest C dest" using d vd by simp
  have "?dur (posted Q ?d k0) = sched (after_delivery P Q v ?d sperm maps k0)"
    by (rule sender_runs_success [OF nz fuel tryDeliver_posted_granted [OF sp d]])
       (simp add: mappings_posted g)
  from ipc_recv_klib_delivered [where dur = ?dur and sched = sched, OF valid this pres,
      of schedQ from_env_store perm_store m]
  show ?thesis unfolding pg .
qed

lemma recv_no_page_delivered:
  assumes nz: "E_not_recv C \<noteq> 0" and fuel: "0 < fuel"
    and pres: "\<forall>k. procs (sched k) Q = procs k Q"
    and valid: "\<forall>dest. page_or_none (if pg = NULL then 0xffffffff else pg) = Some dest
                    \<longrightarrow> valid_dest C dest"
    and np: "page_or_none (if spg = NULL then 0xffffffff else spg) = None \<or>
             page_or_none (if pg = NULL then 0xffffffff else pg) = None"
  shows "\<exists>w'. ipc_recv (traced (klib C Q (sender_runs fuel C P sched Q v spg sperm mP) schedQ))
            from_env_store pg perm_store (\<lparr> kern = k0, umem = m \<rparr>, []) =
         Some (v, (w',
            [Call_ipc_recv (if pg = NULL then 0xffffffff else pg)] @
            (if from_env_store \<noteq> NULL then [Store from_env_store P] else []) @
            (if perm_store \<noteq> NULL then [Store perm_store 0] else [])))"
proof -
  let ?d = "page_or_none (if pg = NULL then 0xffffffff else pg)"
  let ?dur = "sender_runs fuel C P sched Q v spg sperm mP"
  have "?dur (posted Q ?d k0) = sched (after_delivery P Q v ?d 0 (mappings k0) k0)"
    by (rule sender_runs_success [OF nz fuel tryDeliver_posted_no_page [OF np]])
  from ipc_recv_klib_delivered [where dur = ?dur and sched = sched, OF valid this pres,
      of schedQ from_env_store perm_store m]
  show ?thesis .
qed

subsection \<open>Send matched with receive\<close>

text \<open>
  C5, against the kernel modelled from the specification.  Let the target \<open>Q\<close> call
  \<^verbatim>\<open>ipc_recv(&from, NULL, &perm)\<close> with both pointers non-null, and let the sender \<open>P\<close>
  call \<^verbatim>\<open>ipc_send(Q, v, NULL, 0)\<close> while \<open>Q\<close> is suspended, with fuel for at least one
  pass; the error number \<^verbatim>\<open>E_IPC_NOT_RECV\<close> is not zero, and whatever runs when \<open>P\<close>
  yields leaves the mailbox of \<open>Q\<close> alone.  Then, for every 32-bit value \<open>v\<close>,
  \<^verbatim>\<open>ipc_recv\<close> returns \<open>v\<close>, having stored the sender's identity \<open>P\<close> through \<^verbatim>\<open>from\<close>
  and 0 through \<^verbatim>\<open>perm\<close>, and the sender's call returns after its first attempt.
\<close>

theorem round_trip:
  assumes nz: "E_not_recv C \<noteq> 0" and fuel: "0 < fuel"
    and pres: "\<forall>k. procs (sched k) Q = procs k Q"
    and nn: "from_env_store \<noteq> NULL" "perm_store \<noteq> NULL"
  shows "ipc_recv (traced (klib C Q (sender_runs fuel C P sched Q v NULL 0 mP) schedQ))
            from_env_store NULL perm_store (\<lparr> kern = k0, umem = m \<rparr>, []) =
         Some (v,
           (\<lparr> kern = sched (delivered P Q v k0),
              umem = m(from_env_store := P, perm_store := 0) \<rparr>,
            [Call_ipc_recv 0xffffffff, Store from_env_store P, Store perm_store 0])) \<and>
         ipc_send fuel (klib C P (\<lambda>k. k) sched) Q v NULL 0
            \<lparr> kern = snd (postReceive (valid_dest C) Q None k0), umem = mP \<rparr> =
         (Returned, \<lparr> kern = sched (delivered P Q v k0), umem = mP \<rparr>)"
  using nn
  by (simp add: ipc_recv_traced_after_delivery [OF nz fuel pres]
        sender_runs_posted [OF nz fuel])

text \<open>C5 for the processes 1 (sender) and 2 (receiver) and the value 42.\<close>

theorem round_trip_witness:
  "E_not_recv kconfig0 \<noteq> 0 \<and>
   ipc_recv (traced (klib kconfig0 2 (sender_runs 2 kconfig0 1 (\<lambda>k. k) 2 42 NULL 0 (\<lambda>a. 0))
               (\<lambda>k. k)))
      0x1000 NULL 0x2000 (\<lparr> kern = kernel0, umem = (\<lambda>a. 0) \<rparr>, []) =
     Some (42,
       (\<lparr> kern = delivered 1 2 42 kernel0, umem = (\<lambda>a. 0)(0x1000 := 1, 0x2000 := 0) \<rparr>,
        [Call_ipc_recv 0xffffffff, Store 0x1000 1, Store 0x2000 0]))"
proof -
  have nz: "E_not_recv kconfig0 \<noteq> 0" by (simp add: kconfig0_def)
  have fuel: "(0::nat) < 2" by simp
  have pres: "\<forall>k. procs ((\<lambda>k. k) k) (2::envid_t) = procs k 2" by simp
  have nn: "(0x1000::addr) \<noteq> NULL" "(0x2000::addr) \<noteq> NULL" by simp_all
  show ?thesis
    using nz round_trip [OF nz fuel pres nn, of 1 42 "\<lambda>a. 0" "\<lambda>k. k" kernel0 "\<lambda>a. 0"]
    by simp
qed

text \<open>
  C4, against the kernel modelled from the specification.  Let the receiver \<open>Q\<close> call
  \<^verbatim>\<open>ipc_recv\<close> with \<^verbatim>\<open>pg == NULL\<close> and a non-null \<^verbatim>\<open>perm_store\<close>, and let the sender \<open>P\<close>
  call \<^verbatim>\<open>ipc_send(Q, v, page, rw)\<close> with a non-null page and any permission \<open>rw\<close>
  (read-write included) while \<open>Q\<close> is suspended; the other assumptions are those of
  C5, and whatever runs when \<open>P\<close> yields maps nothing into the address space of \<open>Q\<close>.
  Then \<^verbatim>\<open>ipc_recv\<close> returns the value and stores 0 through \<^verbatim>\<open>perm_store\<close>, and the
  address space of \<open>Q\<close> is what it was before: no page has been mapped.
\<close>

theorem no_page_without_destination:
  assumes nz: "E_not_recv C \<noteq> 0" and fuel: "0 < fuel"
    and pres: "\<forall>k. procs (sched k) Q = procs k Q"
    and presm: "\<forall>k. mappings (sched k) Q = mappings k Q"
    and nn: "page \<noteq> NULL" "perm_store \<noteq> NULL"
  shows "\<exists>w'. ipc_recv (traced (klib C Q (sender_runs fuel C P sched Q v page rw mP) schedQ))
            from_env_store NULL perm_store (\<lparr> kern = k0, umem = m \<rparr>, []) =
         Some (v,
           (w', [Call_ipc_recv 0xffffffff] @
                (if from_env_store \<noteq> NULL then [Store from_env_store P] else []) @
                [Store perm_store 0])) \<and>
         umem w' perm_store = 0 \<and>
         mappings (kern w') Q = mappings k0 Q"
proof -
  have "mappings (sched (delivered P Q v k0)) Q = mappings k0 Q"
    using presm by (simp add: delivered_def)
  then show ?thesis
    using nn by (simp add: ipc_recv_traced_after_delivery [OF nz fuel pres])
qed

text \<open>
  C4 for the processes 1 and 2: process 1 sends its page at \<^verbatim>\<open>0x800000\<close> with
  permission 7, and the address space of process 2 stays empty.
\<close>

theorem no_page_without_destination_witness:
  "E_not_recv kconfig0 \<noteq> 0 \<and>
   (\<exists>w'. ipc_recv (traced (klib kconfig0 2
                (sender_runs 2 kconfig0 1 (\<lambda>k. k) 2 42 0x800000 7 (\<lambda>a. 0)) (\<lambda>k. k)))
      0x1000 NULL 0x2000 (\<lparr> kern = kernel0, umem = (\<lambda>a. 0) \<rparr>, []) =
     Some (42, (w', [Call_ipc_recv 0xffffffff, Store 0x1000 1, Store 0x2000 0])) \<and>
     umem w' 0x2000 = 0 \<and>
     mappings (kern w') 2 = Map.empty)"
proof -
  have nz: "E_not_recv kconfig0 \<noteq> 0" by (simp add: kconfig0_def)
  have fuel: "(0::nat) < 2" by simp
  have pres: "\<forall>k. procs ((\<lambda>k. k) k) (2::envid_t) = procs k 2" by simp
  have presm: "\<forall>k. mappings ((\<lambda>k. k) k) (2::envid_t) = mappings k 2" by simp
  have nn: "(0x800000::addr) \<noteq> NULL" "(0x2000::addr) \<noteq> NULL" by simp_all
  have m0: "mappings kernel0 2 = Map.empty" by (simp add: kernel0_def)
  show ?thesis
    using nz no_page_without_destination [OF nz fuel pres presm nn,
        of 1 42 7 "\<lambda>a. 0" "\<lambda>k. k" "0x1000" kernel0 "\<lambda>a. 0"]
    by (simp add: m0)
qed

subsection \<open>What \<^verbatim>\<open>ipc_recv\<close> returns and stores\<close>

text \<open>
  C3.  Let the global \<^verbatim>\<open>env\<close> be unaffected by the stores of the calling environment
  (the kernel maps the environment array read-only into user space).  A call
  \<^verbatim>\<open>ipc_recv(from_env_store, pg, perm_store)\<close> makes one system call, \<^verbatim>\<open>sys_ipc_recv\<close>.
  If that call returns a negative \<open>r\<close>, \<^verbatim>\<open>ipc_recv\<close> stores 0 through \<^verbatim>\<open>from_env_store\<close>
  and through \<^verbatim>\<open>perm_store\<close>, each only if it is not null, and returns \<open>r\<close>; it makes
  no further system call, so nothing suspends it after the failed call.  If the call
  returns a non-negative result, \<^verbatim>\<open>ipc_recv\<close> stores \<^verbatim>\<open>env->env_ipc_from\<close> through
  \<^verbatim>\<open>from_env_store\<close> and \<^verbatim>\<open>env->env_ipc_perm\<close> through \<^verbatim>\<open>perm_store\<close>, each only if it
  is not null, and returns \<^verbatim>\<open>env->env_ipc_value\<close>.  If \<^verbatim>\<open>sys_ipc_recv\<close> never resumes the
  caller, \<^verbatim>\<open>ipc_recv\<close> does not return.  This much holds for every implementation of
  the system calls.

  That the permission is zero whenever no page was actually transferred depends on
  what the kernel leaves in \<^verbatim>\<open>env_ipc_perm\<close>; it is shown against the kernel modelled
  from the specification.  Let the process \<open>Q\<close> call
  \<^verbatim>\<open>ipc_recv(from_env_store, pg, perm_store)\<close> and let the process \<open>P\<close> call
  \<^verbatim>\<open>ipc_send(Q, v, spg, sperm)\<close> while \<open>Q\<close> is suspended, with fuel for at least one
  pass; the error numbers are distinct, \<^verbatim>\<open>E_IPC_NOT_RECV\<close> is not zero, a validation
  error is returned as a negative number, and whatever runs when \<open>P\<close> yields leaves the
  mailbox of \<open>Q\<close> alone.  If no page is transferred (the sender supplied none, the
  receiver posted no destination or an invalid one, or the mapping service refused),
  then whenever \<^verbatim>\<open>ipc_recv\<close> returns, what it has stored through a non-null
  \<^verbatim>\<open>perm_store\<close> is 0.  If a page is transferred, \<^verbatim>\<open>ipc_recv\<close> returns \<open>v\<close> and has
  stored the sender's identity and the sender's permission \<open>sperm\<close>.  And when the
  sender supplied no page, or the receiver posted no destination, with any destination
  posted being valid, \<^verbatim>\<open>ipc_recv\<close> does return: it returns \<open>v\<close> and has stored the
  sender's identity and the permission 0.
\<close>

theorem ipc_recv_result:
  assumes ro: "\<forall>a v s. env L (store32 L a v s) = env L s"
  shows "(ipc_recv (traced L) from_env_store pg perm_store (w, []) =
     (case sys_ipc_recv L (if pg = NULL then 0xffffffff else pg) w of
        None \<Rightarrow> None
      | Some (r, w1) \<Rightarrow>
          if r <s 0 then
            Some (r,
              ((if perm_store \<noteq> NULL then store32 L perm_store 0 else id)
                 ((if from_env_store \<noteq> NULL then store32 L from_env_store 0 else id) w1),
               [Call_ipc_recv (if pg = NULL then 0xffffffff else pg)] @
               (if from_env_store \<noteq> NULL then [Store from_env_store 0] else []) @
               (if perm_store \<noteq> NULL then [Store perm_store 0] else [])))
          else
            Some (env_ipc_value (env L w1),
              ((if perm_store \<noteq> NULL
                then store32 L perm_store (env_ipc_perm (env L w1)) else id)
                 ((if from_env_store \<noteq> NULL
                   then store32 L from_env_store (env_ipc_from (env L w1)) else id) w1),
               [Call_ipc_recv (if pg = NULL then 0xffffffff else pg)] @
               (if from_env_store \<noteq> NULL
                then [Store from_env_store (env_ipc_from (env L w1))] else []) @
               (if perm_store \<noteq> NULL
                then [Store perm_store (env_ipc_perm (env L w1))] else []))))) \<and>
     (E_not_recv C \<noteq> 0 \<and> E_other C \<noteq> E_not_recv C \<and> - E_validation C <s 0 \<and> 0 < fuel \<and>
      (\<forall>k. procs (sched k) Q = procs k Q) \<and>
      page_transfer C k0 P spg sperm Q pg = None \<and>
      ipc_recv (traced (klib C Q (sender_runs fuel C P sched Q v spg sperm mP) schedQ))
            from_env_store pg perm_store (\<lparr> kern = k0, umem = m \<rparr>, []) = Some (r, (w', t))
      \<longrightarrow> (\<exists>x. t = [Call_ipc_recv (if pg = NULL then 0xffffffff else pg)] @
            (if from_env_store \<noteq> NULL then [Store from_env_store x] else []) @
            (if perm_store \<noteq> NULL then [Store perm_store 0] else []))) \<and>
     (E_not_recv C \<noteq> 0 \<and> 0 < fuel \<and> (\<forall>k. procs (sched k) Q = procs k Q) \<and>
      page_transfer C k0 P spg sperm Q pg = Some maps
      \<longrightarrow> (\<exists>w'. ipc_recv (traced (klib C Q (sender_runs fuel C P sched Q v spg sperm mP) schedQ))
            from_env_store pg perm_store (\<lparr> kern = k0, umem = m \<rparr>, []) =
         Some (v, (w',
            [Call_ipc_recv pg] @
            (if from_env_store \<noteq> NULL then [Store from_env_store P] else []) @
            (if perm_store \<noteq> NULL then [Store perm_store sperm] else []))))) \<and>
     (E_not_recv C \<noteq> 0 \<and> 0 < fuel \<and> (\<forall>k. procs (sched k) Q = procs k Q) \<and>
      (\<forall>dest. page_or_none (if pg = NULL then 0xffffffff else pg) = Some dest
                    \<longrightarrow> valid_dest C dest) \<and>
      (page_or_none (if spg = NULL then 0xffffffff else spg) = None \<or>
       page_or_none (if pg = NULL then 0xffffffff else pg) = None)
      \<longrightarrow> (\<exists>w'. ipc_recv (traced (klib C Q (sender_runs fuel C P sched Q v spg sperm mP) schedQ))
            from_env_store pg perm_store (\<lparr> kern = k0, umem = m \<rparr>, []) =
         Some (v, (w',
            [Call_ipc_recv (if pg = NULL then 0xffffffff else pg)] @
            (if from_env_store \<noteq> NULL then [Store from_env_store P] else []) @
            (if perm_store \<noteq> NULL then [Store perm_store 0] else [])))))"
proof (intro conjI impI)
  show "ipc_recv (traced L) from_env_store pg perm_store (w, []) =
     (case sys_ipc_recv L (if pg = NULL then 0xffffffff else pg) w of
        None \<Rightarrow> None
      | Some (r, w1) \<Rightarrow>
          if r <s 0 then
            Some (r,
              ((if perm_store \<noteq> NULL then store32 L perm_store 0 else id)
                 ((if from_env_store \<noteq> NULL then store32 L from_env_store 0 else id) w1),
               [Call_ipc_recv (if pg = NULL then 0xffffffff else pg)] @
               (if from_env_store \<noteq> NULL then [Store from_env_store 0] else []) @
               (if perm_store \<noteq> NULL then [Store perm_store 0] else [])))
          else
            Some (env_ipc_value (env L w1),
              ((if perm_store \<noteq> NULL
                then store32 L perm_store (env_ipc_perm (env L w1)) else id)
                 ((if from_env_store \<noteq> NULL
                   then store32 L from_env_store (env_ipc_from (env L w1)) else id) w1),
               [Call_ipc_recv (if pg = NULL then 0xffffffff else pg)] @
               (if from_env_store \<noteq> NULL
                then [Store from_env_store (env_ipc_from (env L w1))] else []) @
               (if perm_store \<noteq> NULL
                then [Store perm_store (env_ipc_perm (env L w1))] else []))))"
    by (rule ipc_recv_generic [OF ro])
next
  assume a: "E_not_recv C \<noteq> 0 \<and> E_other C \<noteq> E_not_recv C \<and> - E_validation C <s 0 \<and> 0 < fuel \<and>
      (\<forall>k. procs (sched k) Q = procs k Q) \<and>
      page_transfer C k0 P spg sperm Q pg = None \<and>
      ipc_recv (traced (klib C Q (sender_runs fuel C P sched Q v spg sperm mP) schedQ))
            from_env_store pg perm_store (\<lparr> kern = k0, umem = m \<rparr>, []) = Some (r, (w', t))"
  show "\<exists>x. t = [Call_ipc_recv (if pg = NULL then 0xffffffff else pg)] @
            (if from_env_store \<noteq> NULL then [Store from_env_store x] else []) @
            (if perm_store \<noteq> NULL then [Store perm_store 0] else [])"
    using a by (intro recv_no_transfer [of C fuel sched Q k0 P spg sperm pg v mP schedQ
        from_env_store perm_store m r w' t]) simp_all
next
  assume a: "E_not_recv C \<noteq> 0 \<and> 0 < fuel \<and> (\<forall>k. procs (sched k) Q = procs k Q) \<and>
      page_transfer C k0 P spg sperm Q pg = Some maps"
  show "\<exists>w'. ipc_recv (traced (klib C Q (sender_runs fuel C P sched Q v spg sperm mP) schedQ))
            from_env_store pg perm_store (\<lparr> kern = k0, umem = m \<rparr>, []) =
         Some (v, (w',
            [Call_ipc_recv pg] @
            (if from_env_store \<noteq> NULL then [Store from_env_store P] else []) @
            (if perm_store \<noteq> NULL then [Store perm_store sperm] else [])))"
    using a by (intro recv_transfer [of C fuel sched Q k0 P spg sperm pg maps]) simp_all
next
  assume a: "E_not_recv C \<noteq> 0 \<and> 0 < fuel \<and> (\<forall>k. procs (sched k) Q = procs k Q) \<and>
      (\<forall>dest. page_or_none (if pg = NULL then 0xffffffff else pg) = Some dest
                    \<longrightarrow> valid_dest C dest) \<and>
      (page_or_none (if spg = NULL then 0xffffffff else spg) = None \<or>
       page_or_none (if pg = NULL then 0xffffffff else pg) = None)"
  show "\<exists>w'. ipc_recv (traced (klib C Q (sender_runs fuel C P sched Q v spg sperm mP) schedQ))
            from_env_store pg perm_store (\<lparr> kern = k0, umem = m \<rparr>, []) =
         Some (v, (w',
            [Call_ipc_recv (if pg = NULL then 0xffffffff else pg)] @
            (if from_env_store \<noteq> NULL then [Store from_env_store P] else []) @
            (if perm_store \<noteq> NULL then [Store perm_store 0] else [])))"
    using a by (intro recv_no_page_delivered) simp_all
qed
text \<open>
  C3 at concrete inputs: a failing system call (result \<open>-3\<close>) with both out-parameters
  given, and a successful one with a null \<^verbatim>\<open>perm_store\<close>, over a memory that holds 1
  everywhere; and, against the modelled kernel, process 2 receiving at \<^verbatim>\<open>0x400000\<close>
  from process 1, which sends permission 7 first without a page (0 is stored) and then
  with its page at \<^verbatim>\<open>0x800000\<close> (7 is stored).
\<close>

theorem ipc_recv_result_witness:
  "ipc_recv (traced (mock_recv (- 3) \<lparr>env_ipc_from = 9, env_ipc_perm = 5, env_ipc_value = 42\<rparr>))
      0x1000 NULL 0x2000 (\<lambda>a. 1, [])
     = Some (- 3, ((\<lambda>a. 1)(0x1000 := 0, 0x2000 := 0),
                  [Call_ipc_recv 0xffffffff, Store 0x1000 0, Store 0x2000 0])) \<and>
   ipc_recv (traced (mock_recv 0 \<lparr>env_ipc_from = 9, env_ipc_perm = 5, env_ipc_value = 42\<rparr>))
      0x1000 0x800000 NULL (\<lambda>a. 1, [])
     = Some (42, ((\<lambda>a. 1)(0x1000 := 9), [Call_ipc_recv 0x800000, Store 0x1000 9])) \<and>
   page_transfer kconfig0 kernel0 1 NULL 7 2 0x400000 = None \<and>
   (\<exists>w'. ipc_recv (traced (klib kconfig0 2
             (sender_runs 2 kconfig0 1 (\<lambda>k. k) 2 42 NULL 7 (\<lambda>a. 0)) (\<lambda>k. k)))
          0x1000 0x400000 0x2000 (\<lparr> kern = kernel0, umem = (\<lambda>a. 0) \<rparr>, []) =
        Some (42, (w', [Call_ipc_recv 0x400000, Store 0x1000 1, Store 0x2000 0]))) \<and>
   page_transfer kconfig0 kernel0 1 0x800000 7 2 0x400000 =
     Some ((mappings kernel0)(2 := [0x400000 \<mapsto> (0x5000, 7)])) \<and>
   (\<exists>w'. ipc_recv (traced (klib kconfig0 2
             (sender_runs 2 kconfig0 1 (\<lambda>k. k) 2 42 0x800000 7 (\<lambda>a. 0)) (\<lambda>k. k)))
          0x1000 0x400000 0x2000 (\<lparr> kern = kernel0, umem = (\<lambda>a. 0) \<rparr>, []) =
        Some (42, (w', [Call_ipc_recv 0x400000, Store 0x1000 1, Store 0x2000 7])))"
proof -
  let ?e = "\<lparr>env_ipc_from = 9, env_ipc_perm = 5, env_ipc_value = 42\<rparr>"
  have ro: "\<forall>a v s. env (mock_recv r ?e) (store32 (mock_recv r ?e) a v s) = env (mock_recv r ?e) s"
    for r by (simp add: mock_recv_def)
  have g: "ipc_recv (traced (mock_recv (- 3) ?e)) 0x1000 NULL 0x2000 (\<lambda>a. 1, [])
     = Some (- 3, ((\<lambda>a. 1)(0x1000 := 0, 0x2000 := 0),
                  [Call_ipc_recv 0xffffffff, Store 0x1000 0, Store 0x2000 0])) \<and>
   ipc_recv (traced (mock_recv 0 ?e)) 0x1000 0x800000 NULL (\<lambda>a. 1, [])
     = Some (42, ((\<lambda>a. 1)(0x1000 := 9), [Call_ipc_recv 0x800000, Store 0x1000 9]))"
    using ipc_recv_result [OF ro, of "- 3" "0x1000" NULL "0x2000" "\<lambda>a. 1"]
      ipc_recv_result [OF ro, of 0 "0x1000" "0x800000" NULL "\<lambda>a. 1"]
    by (simp add: mock_recv_def word_sless_alt)
  have nz: "E_not_recv kconfig0 \<noteq> 0" and ne: "E_other kconfig0 \<noteq> E_not_recv kconfig0"
    and negv: "- E_validation kconfig0 <s 0"
    by (simp_all add: kconfig0_def word_sless_alt)
  have fuel: "(0::nat) < 2" by simp
  have pres: "\<forall>k. procs ((\<lambda>k. k) k) (2::envid_t) = procs k 2" by simp
  have v: "valid_dest kconfig0 0x400000" by (simp add: kconfig0_def)
  have nt: "page_transfer kconfig0 kernel0 1 NULL 7 2 0x400000 = None"
    by (simp add: page_transfer_def page_or_none_def)
  have tr: "page_transfer kconfig0 kernel0 1 0x800000 7 2 0x400000 =
     Some ((mappings kernel0)(2 := [0x400000 \<mapsto> (0x5000, 7)]))"
    by (simp add: page_transfer_def page_or_none_def kconfig0_def kernel0_def)
  have d: "\<exists>w'. ipc_recv (traced (klib kconfig0 2
             (sender_runs 2 kconfig0 1 (\<lambda>k. k) 2 42 NULL 7 (\<lambda>a. 0)) (\<lambda>k. k)))
          0x1000 0x400000 0x2000 (\<lparr> kern = kernel0, umem = (\<lambda>a. 0) \<rparr>, []) =
        Some (42, (w', [Call_ipc_recv 0x400000, Store 0x1000 1, Store 0x2000 0]))"
    using ipc_recv_result [OF ro [of 0], where C = kconfig0 and fuel = 2 and sched = "\<lambda>k. k"
        and Q = 2 and ?k0.0 = kernel0 and P = 1 and spg = NULL and sperm = 7 and pg = "0x400000"
        and v = 42 and mP = "\<lambda>a. 0" and schedQ = "\<lambda>k. k" and from_env_store = "0x1000"
        and perm_store = "0x2000" and m = "\<lambda>a. 0", THEN conjunct2, THEN conjunct2,
        THEN conjunct2]
      nz fuel pres v
    by (simp add: page_or_none_def)
  then obtain w1 where d1: "ipc_recv (traced (klib kconfig0 2
             (sender_runs 2 kconfig0 1 (\<lambda>k. k) 2 42 NULL 7 (\<lambda>a. 0)) (\<lambda>k. k)))
          0x1000 0x400000 0x2000 (\<lparr> kern = kernel0, umem = (\<lambda>a. 0) \<rparr>, []) =
        Some (42, (w1, [Call_ipc_recv 0x400000, Store 0x1000 1, Store 0x2000 0]))" ..
  have k1: "\<exists>x. [Call_ipc_recv 0x400000, Store 0x1000 1, Store 0x2000 0] =
      [Call_ipc_recv (if (0x400000::addr) = NULL then 0xffffffff else 0x400000)] @
      (if (0x1000::addr) \<noteq> NULL then [Store 0x1000 x] else []) @
      (if (0x2000::addr) \<noteq> NULL then [Store 0x2000 0] else [])"
    using ipc_recv_result [OF ro [of 0], where C = kconfig0 and fuel = 2 and sched = "\<lambda>k. k"
        and Q = 2 and ?k0.0 = kernel0 and P = 1 and spg = NULL and sperm = 7 and pg = "0x400000"
        and v = 42 and mP = "\<lambda>a. 0" and schedQ = "\<lambda>k. k" and from_env_store = "0x1000"
        and perm_store = "0x2000" and m = "\<lambda>a. 0" and r = 42 and w' = w1
        and t = "[Call_ipc_recv 0x400000, Store 0x1000 1, Store 0x2000 0]"]
      nz ne negv fuel pres nt d1
    by blast
  have k2: "\<exists>w'. ipc_recv (traced (klib kconfig0 2
             (sender_runs 2 kconfig0 1 (\<lambda>k. k) 2 42 0x800000 7 (\<lambda>a. 0)) (\<lambda>k. k)))
          0x1000 0x400000 0x2000 (\<lparr> kern = kernel0, umem = (\<lambda>a. 0) \<rparr>, []) =
        Some (42, (w', [Call_ipc_recv 0x400000, Store 0x1000 1, Store 0x2000 7]))"
    using ipc_recv_result [OF ro [of 0], where C = kconfig0 and fuel = 2 and sched = "\<lambda>k. k"
        and Q = 2 and ?k0.0 = kernel0 and P = 1 and spg = "0x800000" and sperm = 7
        and pg = "0x400000" and v = 42 and mP = "\<lambda>a. 0" and schedQ = "\<lambda>k. k"
        and from_env_store = "0x1000" and perm_store = "0x2000" and m = "\<lambda>a. 0"
        and maps = "(mappings kernel0)(2 := [0x400000 \<mapsto> (0x5000, 7)])"]
      nz fuel pres tr
    by simp
  from g nt d tr k2 show ?thesis by blast
qed

section \<open>Properties of the stack backtrace\<close>

subsection \<open>Auxiliary facts about the walk\<close>

lemma upt_5: "[0..<5] = [0, 1, 2, 3, 4]"
  by (simp add: upt_rec)

lemma backtrace_loop_zero: "backtrace_loop mem dbg 0 info con = Some con"
  by (subst backtrace_loop.simps) simp

lemma backtrace_loop_step:
  assumes "ebp \<noteq> 0"
  shows "backtrace_loop mem dbg ebp info con =
     backtrace_loop mem dbg (mem ebp) (dbg (mem (ebp + 4)) info)
       (con @
        [Cprintf ''  ebp %x eip %x  args'' [Word ebp, Word (mem (ebp + 4))],
         Cprintf '' %08x'' [Word (mem (ebp + 8))],
         Cprintf '' %08x'' [Word (mem (ebp + 12))],
         Cprintf '' %08x'' [Word (mem (ebp + 16))],
         Cprintf '' %08x'' [Word (mem (ebp + 20))],
         Cprintf '' %08x'' [Word (mem (ebp + 24))],
         Cprintf ''\<newline>'' [],
         Cprintf ''    %s:%u: %.*s+%u\<newline>''
           [Str (eip_file (dbg (mem (ebp + 4)) info)),
            Word (eip_line (dbg (mem (ebp + 4)) info)),
            Word (eip_fn_namelen (dbg (mem (ebp + 4)) info)),
            Str (eip_fn_name (dbg (mem (ebp + 4)) info)),
            Word (mem (ebp + 4) - eip_fn_addr (dbg (mem (ebp + 4)) info))]])"
  by (subst backtrace_loop.simps) (simp add: assms Let_def upt_5 add.assoc)

lemma print_descriptor_frame:
  "print_descriptor \<lparr> framePointer = fp, returnAddress = ra,
       argumentWords = [a0, a1, a2, a3, a4], resolved = info \<rparr> =
     [Cprintf ''  ebp %x eip %x  args'' [Word fp, Word ra],
      Cprintf '' %08x'' [Word a0],
      Cprintf '' %08x'' [Word a1],
      Cprintf '' %08x'' [Word a2],
      Cprintf '' %08x'' [Word a3],
      Cprintf '' %08x'' [Word a4],
      Cprintf ''\<newline>'' [],
      Cprintf ''    %s:%u: %.*s+%u\<newline>''
        [Str (eip_file info), Word (eip_line info), Word (eip_fn_namelen info),
         Str (eip_fn_name info), Word (ra - eip_fn_addr info)]]"
  by (simp add: print_descriptor_def)

lemma backtrace_loop_chain:
  "chain mem ebp fps \<Longrightarrow>
   backtrace_loop mem dbg ebp info con =
     Some (con @ concat (map print_descriptor (descriptors mem dbg info fps)))"
proof (induction fps arbitrary: ebp info con)
  case Nil
  then show ?case by (simp add: backtrace_loop_zero)
next
  case (Cons fp fps)
  then have nz: "ebp \<noteq> 0" and fp: "fp = ebp" and rest: "chain mem (mem ebp) fps"
    by simp_all
  show ?case
    unfolding backtrace_loop_step [OF nz] Cons.IH [OF rest]
    by (simp add: fp print_descriptor_frame)
qed

lemma backtrace_loop_Some_chain:
  assumes "backtrace_loop mem dbg ebp info con = Some out"
  shows "\<exists>fps. chain mem ebp fps"
proof (rule backtrace_loop.raw_induct
    [where P = "\<lambda>mem dbg ebp info con out. \<exists>fps. chain mem ebp fps", OF _ assms], goal_cases)
  case (1 f mem dbg ebp info con out)
  show ?case
  proof (cases "ebp = 0")
    case True
    then have "chain mem ebp []" by simp
    then show ?thesis by blast
  next
    case False
    with 1(2) obtain i c where "f mem dbg (mem ebp) i c = Some out"
      by (simp add: Let_def)
    from 1(1) [OF this] obtain fps where "chain mem (mem ebp) fps" by blast
    with False have "chain mem ebp (ebp # fps)" by simp
    then show ?thesis by blast
  qed
qed

lemma descriptors_fps: "map framePointer (descriptors mem dbg info fps) = fps"
  by (induction fps arbitrary: info) simp_all

lemma chain_unique: "chain mem ebp fps \<Longrightarrow> chain mem ebp fps' \<Longrightarrow> fps = fps'"
proof (induction fps arbitrary: ebp fps')
  case Nil
  then show ?case by (cases fps') simp_all
next
  case (Cons a fps)
  then show ?case by (cases fps') auto
qed

lemma chain_nonzero: "chain mem ebp fps \<Longrightarrow> 0 \<notin> set fps"
  by (induction fps arbitrary: ebp) auto

lemma chain_last: "chain mem ebp fps \<Longrightarrow> fps \<noteq> [] \<Longrightarrow> mem (last fps) = 0"
proof (induction fps arbitrary: ebp)
  case Nil
  then show ?case by simp
next
  case (Cons fp fps)
  then show ?case by (cases fps) auto
qed

lemma mon_backtrace_chain:
  assumes "chain (load32 M) (read_ebp M) fps"
  shows "mon_backtrace M argc argv tf con =
     Some (0, con @ Cprintf ''Stack backtrace:\<newline>'' [] #
        concat (map print_descriptor
          (descriptors (load32 M) (debuginfo_eip M) (eip_info_uninit M) fps)))"
  unfolding mon_backtrace_def Let_def backtrace_loop_chain [OF assms] by simp

lemma mon_backtrace_Some_iff:
  "(\<exists>r. mon_backtrace M argc argv tf con = Some r) \<longleftrightarrow>
   (\<exists>fps. chain (load32 M) (read_ebp M) fps)"
proof
  assume "\<exists>r. mon_backtrace M argc argv tf con = Some r"
  then obtain out where "backtrace_loop (load32 M) (debuginfo_eip M) (read_ebp M)
      (eip_info_uninit M) (con @ [Cprintf ''Stack backtrace:\<newline>'' []]) = Some out"
    by (auto simp: mon_backtrace_def Let_def split: option.splits)
  then show "\<exists>fps. chain (load32 M) (read_ebp M) fps"
    by (rule backtrace_loop_Some_chain)
next
  assume "\<exists>fps. chain (load32 M) (read_ebp M) fps"
  then obtain fps where "chain (load32 M) (read_ebp M) fps" ..
  from mon_backtrace_chain [OF this] show "\<exists>r. mon_backtrace M argc argv tf con = Some r"
    by blast
qed

lemma length_descriptors: "length (descriptors mem dbg info fps) = length fps"
  by (induction fps arbitrary: info) simp_all

lemma length_print_descriptor:
  "length (argumentWords d) = 5 \<Longrightarrow> length (print_descriptor d) = 8"
  by (simp add: print_descriptor_def)

lemma chain_hd: "chain mem ebp fps \<Longrightarrow> fps \<noteq> [] \<Longrightarrow> fps ! 0 = ebp"
  by (cases fps) simp_all

lemma chain_next:
  "chain mem ebp fps \<Longrightarrow> k < length fps \<Longrightarrow>
   (if Suc k < length fps then mem (fps ! k) = fps ! Suc k else mem (fps ! k) = 0)"
proof (induction fps arbitrary: ebp k)
  case Nil
  then show ?case by simp
next
  case (Cons fp fps)
  then have fp: "fp = ebp" and rest: "chain mem (mem ebp) fps" by simp_all
  show ?case
  proof (cases k)
    case 0
    show ?thesis
    proof (cases fps)
      case Nil
      with rest 0 fp show ?thesis by simp
    next
      case (Cons a list)
      with rest 0 fp show ?thesis by simp
    qed
  next
    case (Suc j)
    with Cons.prems have "j < length fps" by simp
    from Cons.IH [OF rest this] Suc show ?thesis by simp
  qed
qed

lemma descriptor_block:
  "k < length fps \<Longrightarrow>
   take 8 (drop (8 * k) (concat (map print_descriptor (descriptors mem dbg info fps)))) =
     [Cprintf ''  ebp %x eip %x  args'' [Word (fps ! k), Word (mem (fps ! k + 4))],
      Cprintf '' %08x'' [Word (mem (fps ! k + 8))],
      Cprintf '' %08x'' [Word (mem (fps ! k + 12))],
      Cprintf '' %08x'' [Word (mem (fps ! k + 16))],
      Cprintf '' %08x'' [Word (mem (fps ! k + 20))],
      Cprintf '' %08x'' [Word (mem (fps ! k + 24))],
      Cprintf ''\<newline>'' [],
      Cprintf ''    %s:%u: %.*s+%u\<newline>''
        [Str (eip_file (foldl (\<lambda>i fp. dbg (mem (fp + 4)) i) info (take (Suc k) fps))),
         Word (eip_line (foldl (\<lambda>i fp. dbg (mem (fp + 4)) i) info (take (Suc k) fps))),
         Word (eip_fn_namelen (foldl (\<lambda>i fp. dbg (mem (fp + 4)) i) info (take (Suc k) fps))),
         Str (eip_fn_name (foldl (\<lambda>i fp. dbg (mem (fp + 4)) i) info (take (Suc k) fps))),
         Word (mem (fps ! k + 4) -
               eip_fn_addr (foldl (\<lambda>i fp. dbg (mem (fp + 4)) i) info (take (Suc k) fps)))]]"
proof (induction fps arbitrary: k info)
  case Nil
  then show ?case by simp
next
  case (Cons fp fps)
  show ?case
  proof (cases k)
    case 0
    then show ?thesis by (simp add: print_descriptor_frame)
  next
    case (Suc j)
    with Cons.prems have j: "j < length fps" by simp
    let ?d = "\<lparr> framePointer = fp, returnAddress = mem (fp + 4),
        argumentWords = [mem (fp + 8), mem (fp + 12), mem (fp + 16), mem (fp + 20), mem (fp + 24)],
        resolved = dbg (mem (fp + 4)) info \<rparr>"
    let ?rest = "concat (map print_descriptor (descriptors mem dbg (dbg (mem (fp + 4)) info) fps))"
    have split: "concat (map print_descriptor (descriptors mem dbg info (fp # fps))) =
        print_descriptor ?d @ ?rest"
      by simp
    have len: "length (print_descriptor ?d) = 8"
      by (rule length_print_descriptor) simp
    have "drop (8 * k) (print_descriptor ?d @ ?rest) = drop (8 * j) ?rest"
      unfolding Suc using len by (simp add: drop_append)
    then show ?thesis
      unfolding split using Cons.IH [OF j, of "dbg (mem (fp + 4)) info"]
      by (simp add: Suc)
  qed
qed

lemma length_concat_descriptors:
  "length (concat (map print_descriptor (descriptors mem dbg info fps))) = 8 * length fps"
  by (induction fps arbitrary: info) (simp_all add: print_descriptor_frame)

subsection \<open>The walk along a frame-pointer chain\<close>

text \<open>
  C6.  If the frame-pointer chain that starts at the frame pointer read on entry
  visits the frames \<open>fps\<close> and then reaches zero, \<^verbatim>\<open>mon_backtrace\<close> terminates and
  returns 0, and what it prints after the heading is one descriptor for each frame of
  \<open>fps\<close>, in the order of the chain, innermost frame first: the descriptors are as
  many as the frames and their frame pointers are \<open>fps\<close>.  No frame visited is zero,
  the frame pointer saved in the last frame is zero, and nothing is visited when the
  starting frame pointer is zero: the walk stops precisely at zero.  The output is the
  same for every invocation on the same machine, whatever the arguments and whatever
  was printed before.  Conversely \<^verbatim>\<open>mon_backtrace\<close> terminates only if the chain
  reaches zero after finitely many frames.
\<close>

theorem mon_backtrace_walk:
  "(chain (load32 M) (read_ebp M) fps \<longrightarrow>
      (\<forall>argc argv tf con.
         mon_backtrace M argc argv tf con =
           Some (0, con @ Cprintf ''Stack backtrace:\<newline>'' [] #
              concat (map print_descriptor
                (descriptors (load32 M) (debuginfo_eip M) (eip_info_uninit M) fps)))) \<and>
      length (descriptors (load32 M) (debuginfo_eip M) (eip_info_uninit M) fps) = length fps \<and>
      map framePointer (descriptors (load32 M) (debuginfo_eip M) (eip_info_uninit M) fps) = fps \<and>
      0 \<notin> set fps \<and>
      (fps \<noteq> [] \<longrightarrow> load32 M (last fps) = 0) \<and>
      (fps = [] \<longrightarrow> read_ebp M = 0)) \<and>
   ((\<exists>r. mon_backtrace M argc argv tf con = Some r) \<longleftrightarrow>
    (\<exists>fps. chain (load32 M) (read_ebp M) fps))"
proof -
  have "fps = [] \<longrightarrow> read_ebp M = 0" if "chain (load32 M) (read_ebp M) fps"
    using that by auto
  then show ?thesis
    using mon_backtrace_chain [of M fps] length_descriptors descriptors_fps
      chain_nonzero [of "load32 M" "read_ebp M" fps] chain_last [of "load32 M" "read_ebp M" fps]
      mon_backtrace_Some_iff [of M argc argv tf con]
    by (intro conjI impI allI) simp_all
qed

text \<open>
  C6 on the synthetic stack of depth 3: three descriptors, innermost first, and the
  complete output.
\<close>

theorem mon_backtrace_walk_witness:
  "chain (load32 machine3) (read_ebp machine3) [0x1000, 0x2000, 0x3000] \<and>
   length (descriptors (load32 machine3) (debuginfo_eip machine3) (eip_info_uninit machine3)
     [0x1000, 0x2000, 0x3000]) = 3 \<and>
   mon_backtrace machine3 2 0 0 [] =
     Some (0,
       [Cprintf ''Stack backtrace:\<newline>'' [],
        Cprintf ''  ebp %x eip %x  args'' [Word 0x1000, Word 0xf0100128],
        Cprintf '' %08x'' [Word 1],
        Cprintf '' %08x'' [Word 2],
        Cprintf '' %08x'' [Word 3],
        Cprintf '' %08x'' [Word 4],
        Cprintf '' %08x'' [Word 5],
        Cprintf ''\<newline>'' [],
        Cprintf ''    %s:%u: %.*s+%u\<newline>''
          [Str ''kern/init.c'', Word 24, Word 14, Str ''test_backtrace'', Word 0x28],
        Cprintf ''  ebp %x eip %x  args'' [Word 0x2000, Word 0xf0100234],
        Cprintf '' %08x'' [Word 6],
        Cprintf '' %08x'' [Word 7],
        Cprintf '' %08x'' [Word 8],
        Cprintf '' %08x'' [Word 9],
        Cprintf '' %08x'' [Word 10],
        Cprintf ''\<newline>'' [],
        Cprintf ''    %s:%u: %.*s+%u\<newline>''
          [Str ''kern/init.c'', Word 24, Word 14, Str ''test_backtrace'', Word 0x134],
        Cprintf ''  ebp %x eip %x  args'' [Word 0x3000, Word 0xf010003e],
        Cprintf '' %08x'' [Word 11],
        Cprintf '' %08x'' [Word 12],
        Cprintf '' %08x'' [Word 13],
        Cprintf '' %08x'' [Word 14],
        Cprintf '' %08x'' [Word 15],
        Cprintf ''\<newline>'' [],
        Cprintf ''    %s:%u: %.*s+%u\<newline>''
          [Str ''kern/entry.S'', Word 70, Word 9, Str ''<unknown>'', Word 0]])"
proof -
  have c: "chain (load32 machine3) (read_ebp machine3) [0x1000, 0x2000, 0x3000]"
    by (simp add: machine3_def stack3_def)
  have m: "load32 machine3 = stack3" "debuginfo_eip machine3 = resolver3"
    by (simp_all add: machine3_def)
  show ?thesis
    using c mon_backtrace_walk [of machine3 "[0x1000, 0x2000, 0x3000]" 2 0 0 "[]"]
    by (simp add: m stack3_def resolver3_def print_descriptor_frame)
qed

text \<open>
  C7.  One step of the walk at a frame pointer \<^verbatim>\<open>ebp\<close> other than zero: the return
  address is the word at \<^verbatim>\<open>ebp + 4\<close>; the first line is printed from the frame
  pointer, the return address and the five words at \<^verbatim>\<open>ebp + 8\<close>, \<^verbatim>\<open>ebp + 12\<close>,
  \<^verbatim>\<open>ebp + 16\<close>, \<^verbatim>\<open>ebp + 20\<close> and \<^verbatim>\<open>ebp + 24\<close>, always five; the second line is printed
  with the format \<^verbatim>\<open>%s:%u: %.*s+%u\<close> from the file, the line, the function name with
  its length, and the return address minus the start address of the function, all as
  resolved for the return address; and the walk goes on at the word loaded from
  \<^verbatim>\<open>ebp\<close>.

  And this is what the walk prints: when the chain from \<^verbatim>\<open>ebp\<close> visits the frames
  \<open>fps\<close> and then reaches zero, the loop ends, having added eight calls of \<^verbatim>\<open>cprintf\<close>
  per frame to what was printed before; for step number \<open>k\<close> (counted from 0), at the
  frame pointer \<open>fps ! k\<close>, these eight calls are exactly the two lines above, with
  the debug information resolved for the return addresses of the frames up to this
  one, in order; the first frame is \<^verbatim>\<open>ebp\<close> itself, and the word loaded from
  \<open>fps ! k\<close> is the next frame pointer, or zero at the last frame.
\<close>

theorem backtrace_step:
  "(ebp \<noteq> 0 \<longrightarrow>
      backtrace_loop mem dbg ebp info con =
        backtrace_loop mem dbg (mem ebp) (dbg (mem (ebp + 4)) info)
          (con @
           [Cprintf ''  ebp %x eip %x  args'' [Word ebp, Word (mem (ebp + 4))],
            Cprintf '' %08x'' [Word (mem (ebp + 8))],
            Cprintf '' %08x'' [Word (mem (ebp + 12))],
            Cprintf '' %08x'' [Word (mem (ebp + 16))],
            Cprintf '' %08x'' [Word (mem (ebp + 20))],
            Cprintf '' %08x'' [Word (mem (ebp + 24))],
            Cprintf ''\<newline>'' [],
            Cprintf ''    %s:%u: %.*s+%u\<newline>''
              [Str (eip_file (dbg (mem (ebp + 4)) info)),
               Word (eip_line (dbg (mem (ebp + 4)) info)),
               Word (eip_fn_namelen (dbg (mem (ebp + 4)) info)),
               Str (eip_fn_name (dbg (mem (ebp + 4)) info)),
               Word (mem (ebp + 4) - eip_fn_addr (dbg (mem (ebp + 4)) info))]])) \<and>
   (chain mem ebp fps \<and> k < length fps \<longrightarrow>
      (\<exists>out. backtrace_loop mem dbg ebp info con = Some out \<and>
         length out = length con + 8 * length fps \<and>
         take (length con) out = con \<and>
         take 8 (drop (length con + 8 * k) out) =
           [Cprintf ''  ebp %x eip %x  args'' [Word (fps ! k), Word (mem (fps ! k + 4))],
            Cprintf '' %08x'' [Word (mem (fps ! k + 8))],
            Cprintf '' %08x'' [Word (mem (fps ! k + 12))],
            Cprintf '' %08x'' [Word (mem (fps ! k + 16))],
            Cprintf '' %08x'' [Word (mem (fps ! k + 20))],
            Cprintf '' %08x'' [Word (mem (fps ! k + 24))],
            Cprintf ''\<newline>'' [],
            Cprintf ''    %s:%u: %.*s+%u\<newline>''
              [Str (eip_file (foldl (\<lambda>i fp. dbg (mem (fp + 4)) i) info (take (Suc k) fps))),
               Word (eip_line (foldl (\<lambda>i fp. dbg (mem (fp + 4)) i) info (take (Suc k) fps))),
               Word (eip_fn_namelen
                 (foldl (\<lambda>i fp. dbg (mem (fp + 4)) i) info (take (Suc k) fps))),
               Str (eip_fn_name (foldl (\<lambda>i fp. dbg (mem (fp + 4)) i) info (take (Suc k) fps))),
               Word (mem (fps ! k + 4) -
                     eip_fn_addr
                       (foldl (\<lambda>i fp. dbg (mem (fp + 4)) i) info (take (Suc k) fps)))]]) \<and>
      fps ! 0 = ebp \<and>
      (if Suc k < length fps then mem (fps ! k) = fps ! Suc k else mem (fps ! k) = 0))"
proof (intro conjI impI)
  assume "ebp \<noteq> 0"
  then show "backtrace_loop mem dbg ebp info con =
        backtrace_loop mem dbg (mem ebp) (dbg (mem (ebp + 4)) info)
          (con @
           [Cprintf ''  ebp %x eip %x  args'' [Word ebp, Word (mem (ebp + 4))],
            Cprintf '' %08x'' [Word (mem (ebp + 8))],
            Cprintf '' %08x'' [Word (mem (ebp + 12))],
            Cprintf '' %08x'' [Word (mem (ebp + 16))],
            Cprintf '' %08x'' [Word (mem (ebp + 20))],
            Cprintf '' %08x'' [Word (mem (ebp + 24))],
            Cprintf ''\<newline>'' [],
            Cprintf ''    %s:%u: %.*s+%u\<newline>''
              [Str (eip_file (dbg (mem (ebp + 4)) info)),
               Word (eip_line (dbg (mem (ebp + 4)) info)),
               Word (eip_fn_namelen (dbg (mem (ebp + 4)) info)),
               Str (eip_fn_name (dbg (mem (ebp + 4)) info)),
               Word (mem (ebp + 4) - eip_fn_addr (dbg (mem (ebp + 4)) info))]])"
    by (rule backtrace_loop_step)
next
  assume a: "chain mem ebp fps \<and> k < length fps"
  then have c: "chain mem ebp fps" and k: "k < length fps" by simp_all
  let ?out = "con @ concat (map print_descriptor (descriptors mem dbg info fps))"
  have 1: "backtrace_loop mem dbg ebp info con = Some ?out"
    by (rule backtrace_loop_chain [OF c])
  have 2: "length ?out = length con + 8 * length fps"
    by (simp add: length_concat_descriptors)
  have 3: "take (length con) ?out = con" by simp
  have 4: "drop (length con + 8 * k) ?out =
      drop (8 * k) (concat (map print_descriptor (descriptors mem dbg info fps)))"
    by (simp add: drop_append)
  show "\<exists>out. backtrace_loop mem dbg ebp info con = Some out \<and>
         length out = length con + 8 * length fps \<and>
         take (length con) out = con \<and>
         take 8 (drop (length con + 8 * k) out) =
           [Cprintf ''  ebp %x eip %x  args'' [Word (fps ! k), Word (mem (fps ! k + 4))],
            Cprintf '' %08x'' [Word (mem (fps ! k + 8))],
            Cprintf '' %08x'' [Word (mem (fps ! k + 12))],
            Cprintf '' %08x'' [Word (mem (fps ! k + 16))],
            Cprintf '' %08x'' [Word (mem (fps ! k + 20))],
            Cprintf '' %08x'' [Word (mem (fps ! k + 24))],
            Cprintf ''\<newline>'' [],
            Cprintf ''    %s:%u: %.*s+%u\<newline>''
              [Str (eip_file (foldl (\<lambda>i fp. dbg (mem (fp + 4)) i) info (take (Suc k) fps))),
               Word (eip_line (foldl (\<lambda>i fp. dbg (mem (fp + 4)) i) info (take (Suc k) fps))),
               Word (eip_fn_namelen
                 (foldl (\<lambda>i fp. dbg (mem (fp + 4)) i) info (take (Suc k) fps))),
               Str (eip_fn_name (foldl (\<lambda>i fp. dbg (mem (fp + 4)) i) info (take (Suc k) fps))),
               Word (mem (fps ! k + 4) -
                     eip_fn_addr
                       (foldl (\<lambda>i fp. dbg (mem (fp + 4)) i) info (take (Suc k) fps)))]]"
    apply (rule exI [of _ ?out])
    apply (intro conjI)
       apply (rule 1)
      apply (rule 2)
     apply (rule 3)
    apply (simp only: 4 descriptor_block [OF k])
    done
  from k have "fps \<noteq> []" by auto
  then show "fps ! 0 = ebp" by (rule chain_hd [OF c])
  show "if Suc k < length fps then mem (fps ! k) = fps ! Suc k else mem (fps ! k) = 0"
    by (rule chain_next [OF c k])
qed

text \<open>C7 at the middle frame of the synthetic stack of depth 3.\<close>

theorem backtrace_step_witness:
  "(0x1000::word32) \<noteq> 0 \<and>
   chain stack3 0x1000 [0x1000, 0x2000, 0x3000] \<and> (1::nat) < 3 \<and>
   (\<exists>out. backtrace_loop stack3 resolver3 0x1000 (eip_info_uninit machine3) [] = Some out \<and>
      length out = 24 \<and>
      take 8 (drop 8 out) =
        [Cprintf ''  ebp %x eip %x  args'' [Word 0x2000, Word 0xf0100234],
         Cprintf '' %08x'' [Word 6],
         Cprintf '' %08x'' [Word 7],
         Cprintf '' %08x'' [Word 8],
         Cprintf '' %08x'' [Word 9],
         Cprintf '' %08x'' [Word 10],
         Cprintf ''\<newline>'' [],
         Cprintf ''    %s:%u: %.*s+%u\<newline>''
           [Str ''kern/init.c'', Word 24, Word 14, Str ''test_backtrace'', Word 0x134]]) \<and>
   stack3 0x2000 = 0x3000"
proof -
  have nz: "(0x1000::word32) \<noteq> 0" by simp
  have c: "chain stack3 0x1000 [0x1000, 0x2000, 0x3000]"
    by (simp add: stack3_def)
  have k: "(1::nat) < 3" by simp
  have s: "stack3 0x2000 = 0x3000" by (simp add: stack3_def)
  have v: "stack3 0x1000 = 0x2000" "stack3 0x1004 = 0xf0100128"
    "stack3 0x2004 = 0xf0100234" "stack3 0x2008 = 6" "stack3 0x200c = 7"
    "stack3 0x2010 = 8" "stack3 0x2014 = 9" "stack3 0x2018 = 10" "stack3 0x3000 = 0"
    by (simp_all add: stack3_def)
  show ?thesis
    using nz c k s
      backtrace_step [of "0x1000" stack3 resolver3 "eip_info_uninit machine3" "[]"
        "[0x1000, 0x2000, 0x3000]" 1, THEN conjunct2]
    by (simp add: v s resolver3_def)
qed

end
